theory Spec2Isabelle
  imports Main "HOL-Library.Word"
begin

unbundle bit_operations_syntax

section \<open>dns64perf++: the launcher (main.cpp)\<close>

text \<open>
  The development embeds \<^verbatim>\<open>main\<close> of \<^verbatim>\<open>src/main.cpp\<close>: the validation of the nine
  positional arguments (lines 49-135) and the orchestration of the worker threads
  (lines 137-172). Everything outside that file is a parameter of the model, collected
  in the record \<open>env\<close>: the C library's \<^verbatim>\<open>inet_pton\<close> and \<^verbatim>\<open>sscanf\<close>, the clock, and
  the operations of \<^verbatim>\<open>dnstester.h\<close>, \<^verbatim>\<open>std::thread\<close> and pthreads, each of which may
  succeed or throw as the environment decides.
\<close>

subsection \<open>Data\<close>

text \<open>
  \<^verbatim>\<open>struct timeval\<close>: seconds and microseconds. The twelve arguments of the
  \<^verbatim>\<open>DnsTester\<close> constructor (lines 142-146), in the order of the call. The server address
  is \<^verbatim>\<open>in6_addr\<close> or, with \<^verbatim>\<open>DNS64PERFPP_IPV4\<close>, \<^verbatim>\<open>in_addr\<close>: the type variable \<open>'a\<close>.
  Time points and durations are counts of nanoseconds in a signed 64-bit integer,
  kept as a 64-bit two's complement word.
\<close>

type_synonym timeval = "int \<times> int"

record 'a tester_args =
  ta_server_addr :: 'a
  ta_port :: "16 word"
  ta_ip :: "32 word"
  ta_netmask :: "8 word"
  ta_num_req :: "32 word"
  ta_num_burst :: "32 word"
  ta_num_thread :: "32 word"
  ta_thread_id :: "32 word"
  ta_num_port :: "16 word"
  ta_test_start_time :: "64 word"
  ta_burst_delay :: "64 word"
  ta_timeout :: timeval

text \<open>The local variables of \<^verbatim>\<open>main\<close> that validation fills in (lines 38-48).\<close>

record 'a config =
  server_addr :: 'a
  port :: "16 word"
  ip :: "32 word"
  netmask :: "8 word"
  num_req :: "32 word"
  num_burst :: "32 word"
  num_thread :: "32 word"
  num_port :: "16 word"
  burst_delay :: "64 word"
  timeout :: timeval

text \<open>
  What the process does that can be observed, in the order the main thread does it:
  text written to standard error, a \<^verbatim>\<open>DnsTester\<close> constructed, a thread started
  on \<^verbatim>\<open>testers[i]->start()\<close>, the thread named, the affinity call with the argument of
  \<^verbatim>\<open>CPU_SET\<close>, a thread joined, the aggregator constructed from the vector of testers
  (given by their indices), the summary displayed, the CSV written to a path.
\<close>

datatype 'a event =
    Stderr string
  | Construct "'a tester_args"
  | ThreadStart nat
  | SetName nat string
  | SetAffinity nat "32 word"
  | Join nat
  | Aggregate "nat list"
  | Display
  | WriteCsv string

text \<open>
  How \<^verbatim>\<open>main\<close> ends: it returns a status; or \<^verbatim>\<open>std::terminate\<close> ends the process (an
  exception that nothing catches, or a \<^verbatim>\<open>std::thread\<close> destroyed while joinable); or
  the modulo of line 110 is taken by zero, which C++ leaves undefined.
\<close>

datatype outcome = Return int | Terminate | ModuloByZero

text \<open>How a block of statements ends: normally, by a thrown \<^verbatim>\<open>std::exception\<close>
  (with its \<^verbatim>\<open>what()\<close>), or with the process already terminated.\<close>

datatype flow = Normal | Throw string | Abort

text \<open>
  The environment. \<open>sscanf_subnet\<close> is \<^verbatim>\<open>sscanf\<close> with the format
  \<^verbatim>\<open>%hhu.%hhu.%hhu.%hhu/%hhu\<close>, \<open>Some\<close> when all five conversions are assigned; the
  other scanners are the one-conversion formats \<^verbatim>\<open>%hu\<close>, \<^verbatim>\<open>%u\<close>, \<^verbatim>\<open>%lu\<close>, \<^verbatim>\<open>%lf\<close>.
  \<open>'d\<close> is \<^verbatim>\<open>double\<close>; \<open>modf_timeval\<close> is the floating-point computation of lines
  133-135. \<open>clock_now\<close> is the one reading of the clock at line 140. The remaining
  fields say whether an operation throws (and the exception's \<^verbatim>\<open>what()\<close>), and what
  \<^verbatim>\<open>pthread_setaffinity_np\<close> returns for thread \<open>i\<close> and the requested core.
  \<open>start_throws i\<close> says that \<^verbatim>\<open>start()\<close> throws in thread \<open>i\<close>; the exception then leaves
  the function of the thread and \<^verbatim>\<open>std::terminate\<close> ends the process while the main thread
  is somewhere after the creation of that thread: \<open>dies_after i\<close> is the number of events
  the main thread still performs after it has created thread \<open>i\<close>.
\<close>

record ('a, 'd) env =
  inet_pton :: "string \<Rightarrow> 'a option"
  sscanf_hu :: "string \<Rightarrow> 16 word option"
  sscanf_subnet :: "string \<Rightarrow> (8 word \<times> 8 word \<times> 8 word \<times> 8 word \<times> 8 word) option"
  sscanf_u :: "string \<Rightarrow> 32 word option"
  sscanf_lu :: "string \<Rightarrow> 64 word option"
  sscanf_lf :: "string \<Rightarrow> 'd option"
  modf_timeval :: "'d \<Rightarrow> timeval"
  clock_now :: "64 word"
  ctor_throws :: "'a tester_args \<Rightarrow> string option"
  start_throws :: "nat \<Rightarrow> bool"
  dies_after :: "nat \<Rightarrow> nat"
  thread_throws :: "nat \<Rightarrow> string option"
  setaffinity_rc :: "nat \<Rightarrow> 32 word \<Rightarrow> int"
  join_throws :: "nat \<Rightarrow> string option"
  aggregator_throws :: "string option"
  display_throws :: "string option"
  write_throws :: "string \<Rightarrow> string option"

subsection \<open>Formatting\<close>

text \<open>\<^verbatim>\<open>std::to_string\<close> on an unsigned value and \<^verbatim>\<open>%d\<close> of \<^verbatim>\<open>fprintf\<close>: decimal digits.\<close>

definition digit_char :: "nat \<Rightarrow> char" where
  "digit_char d = ''0123456789'' ! d"

function to_string :: "nat \<Rightarrow> string" where
  "to_string n = (if n < 10 then [digit_char n] else to_string (n div 10) @ [digit_char (n mod 10)])"
  by pat_completeness auto
termination
  by (relation "measure id") auto

definition printf_d :: "int \<Rightarrow> string" where
  "printf_d x = (if x < 0 then CHR ''-'' # to_string (nat (- x)) else to_string (nat x))"

subsection \<open>Validation of the arguments (lines 49-135)\<close>

text \<open>
  Lines 84-85. The four octets are promoted to \<^verbatim>\<open>int\<close>, shifted and or-ed in 32 bits;
  the \<^verbatim>\<open>int\<close> is converted to \<^verbatim>\<open>uint64_t\<close> (with sign extension) for the \<^verbatim>\<open>&\<close> with the
  64-bit mask, and the result is truncated to the 32-bit \<^verbatim>\<open>ip\<close>.
\<close>

definition subnet_ip :: "8 word \<Rightarrow> 8 word \<Rightarrow> 8 word \<Rightarrow> 8 word \<Rightarrow> 8 word \<Rightarrow> 32 word" where
  "subnet_ip t0 t1 t2 t3 nm =
     ucast ((scast (push_bit 24 (ucast t0 :: 32 word) OR push_bit 16 (ucast t1 :: 32 word)
                    OR push_bit 8 (ucast t2 :: 32 word) OR (ucast t3 :: 32 word)) :: 64 word)
            AND NOT (push_bit (32 - unat nm) (1 :: 64 word) - 1))"

text \<open>The result of validation: a diagnostic and \<^verbatim>\<open>return -1\<close>, the modulo by zero,
  or the configuration with which the run starts.\<close>

datatype 'a validation = Reject string | ModZero | Accept "'a config"

definition usage :: string where
  "usage = ''Usage: dns64perf++ <server> <port> <subnet> <number of requests> <burst size> <number of threads> <number of ports per thread> <delay between bursts in ns> <timeout in s>\<newline>''"

definition parse_args :: "('a, 'd) env \<Rightarrow> string list \<Rightarrow> 'a validation" where
  "parse_args e argv =
    (if length argv < 10 then Reject usage
     else case inet_pton e (argv ! 1) of
       None \<Rightarrow> Reject ''Bad server adddress.\<newline>''
     | Some sa \<Rightarrow>
     (case sscanf_hu e (argv ! 2) of
       None \<Rightarrow> Reject ''Bad port.\<newline>''
     | Some p \<Rightarrow>
     (case sscanf_subnet e (argv ! 3) of
       None \<Rightarrow> Reject ''Bad subnet.\<newline>''
     | Some (t0, t1, t2, t3, nm) \<Rightarrow>
     if nm > 32 then Reject ''Bad netmask.\<newline>''
     else
     (case sscanf_u e (argv ! 4) of
       None \<Rightarrow> Reject ''Bad number of requests, must be between 0 and 2^32.\<newline>''
     | Some nreq \<Rightarrow>
     if (ucast nreq :: 64 word) > push_bit (32 - unat nm) 1
     then Reject ''The number of requests is higher than the avaliable IPs in the subnet.\<newline>''
     else
     (case sscanf_u e (argv ! 5) of
       None \<Rightarrow> Reject ''Bad burst size, must be between 0 and 2^32.\<newline>''
     | Some nburst \<Rightarrow>
     (case sscanf_u e (argv ! 6) of
       None \<Rightarrow> Reject ''Bad number of threads size, must be between 0 and 2^32.\<newline>''
     | Some nthread \<Rightarrow>
     if nthread * nburst = 0 then ModZero
     else if nreq mod (nthread * nburst) \<noteq> 0
     then Reject ''Number of requests must be divisble by (number of threads * burst size)\<newline>''
     else
     (case sscanf_hu e (argv ! 7) of
       None \<Rightarrow> Reject ''Bad number of ports per thread, must be between 0 and 2^16.\<newline>''
     | Some nport \<Rightarrow>
     (case sscanf_lu e (argv ! 8) of
       None \<Rightarrow> Reject ''Bad delay between bursts.\<newline>''
     | Some bdelay \<Rightarrow>
     (case sscanf_lf e (argv ! 9) of
       None \<Rightarrow> Reject ''Bad timeout.\<newline>''
     | Some t \<Rightarrow>
       Accept \<lparr>server_addr = sa, port = p, ip = subnet_ip t0 t1 t2 t3 nm, netmask = nm,
               num_req = nreq, num_burst = nburst, num_thread = nthread, num_port = nport,
               burst_delay = bdelay, timeout = modf_timeval e t\<rparr>)))))))))"

subsection \<open>The run (lines 137-172)\<close>

text \<open>Line 139-140: the clock read once, plus two seconds.\<close>

definition reference_time :: "('a, 'd) env \<Rightarrow> 64 word" where
  "reference_time e = clock_now e + 2000000000"

text \<open>
  The arguments of the constructor call for worker \<open>i\<close> (lines 142-146). The quotient
  \<^verbatim>\<open>burst_delay / num_thread\<close> is an unsigned 64-bit division; the duration built from
  it is multiplied by \<open>i\<close> and added to the reference time in 64 bits. The signed
  arithmetic of the durations is modelled with wrap-around.
\<close>

definition dns_tester_args :: "('a, 'd) env \<Rightarrow> 'a config \<Rightarrow> nat \<Rightarrow> 'a tester_args" where
  "dns_tester_args e c i =
     \<lparr>ta_server_addr = server_addr c, ta_port = port c, ta_ip = ip c, ta_netmask = netmask c,
      ta_num_req = num_req c, ta_num_burst = num_burst c, ta_num_thread = num_thread c,
      ta_thread_id = of_nat i, ta_num_port = num_port c,
      ta_test_start_time = reference_time e + (burst_delay c div ucast (num_thread c)) * of_nat i,
      ta_burst_delay = burst_delay c, ta_timeout = timeout c\<rparr>"

text \<open>Sequencing: the second block runs only when the first ends normally.\<close>

definition seq :: "'a event list \<times> flow \<Rightarrow> 'a event list \<times> flow \<Rightarrow> 'a event list \<times> flow" where
  "seq r k = (case snd r of Normal \<Rightarrow> (fst r @ fst k, snd k) | _ \<Rightarrow> r)"

text \<open>
  The three loops of \<^verbatim>\<open>main\<close> have the same header,
  \<^verbatim>\<open>for (uint32_t i = 0; i < num_thread; i++)\<close>: the body runs for \<open>i\<close>, then the loop
  goes on from \<open>i + 1\<close>, unless the body threw. The counter stays below \<^verbatim>\<open>num_thread\<close>,
  so it never wraps and is kept as a natural number.
\<close>

function for_loop :: "nat \<Rightarrow> (nat \<Rightarrow> 'a event list \<times> flow) \<Rightarrow> nat \<Rightarrow> 'a event list \<times> flow" where
  "for_loop n body i = (if i < n then seq (body i) (for_loop n body (Suc i)) else ([], Normal))"
  by pat_completeness auto
termination
  by (relation "measure (\<lambda>(n, body, i). n - i)") auto

text \<open>The body of the loop of lines 141-147. The loop is outside the \<^verbatim>\<open>try\<close> block: an
  exception of the constructor leaves \<^verbatim>\<open>main\<close> uncaught.\<close>

definition construct_body :: "('a, 'd) env \<Rightarrow> 'a config \<Rightarrow> nat \<Rightarrow> 'a event list \<times> flow" where
  "construct_body e c i =
     (case ctor_throws e (dns_tester_args e c i) of
        Some w \<Rightarrow> ([], Throw w)
      | None \<Rightarrow> ([Construct (dns_tester_args e c i)], Normal))"

text \<open>Lines 157-161: the message for the return code of the affinity call. The
  unsigned arguments of \<^verbatim>\<open>%d\<close> are read as signed 32-bit integers.\<close>

definition affinity_message :: "32 word \<Rightarrow> nat \<Rightarrow> int \<Rightarrow> string" where
  "affinity_message nthread i rc =
     (if rc \<noteq> 0 then ''Error calling pthread_setaffinity_np: '' @ printf_d rc @ ''.\<newline>''
      else ''Receiver thread '' @ printf_d (sint (of_nat i :: 32 word)) @ '' was pinned to CPU core ''
           @ printf_d (sint (nthread + of_nat i)) @ ''.\<newline>'')"

text \<open>The body of the loop of lines 149-162. Creating the thread may throw; the rest
  of the body does not. The core index \<^verbatim>\<open>num_thread+i\<close> is a 32-bit unsigned sum.\<close>

definition spawn_body :: "('a, 'd) env \<Rightarrow> 'a config \<Rightarrow> nat \<Rightarrow> 'a event list \<times> flow" where
  "spawn_body e c i =
     (case thread_throws e i of
        Some w \<Rightarrow> ([], Throw w)
      | None \<Rightarrow> (let core = num_thread c + of_nat i;
                     rc = setaffinity_rc e i core
                 in ([ThreadStart i, SetName i (''Receiver '' @ to_string i),
                      SetAffinity i core, Stderr (affinity_message (num_thread c) i rc)], Normal)))"


text \<open>
  The body of the loop of lines 163-165. \<^verbatim>\<open>join\<close> returns when the thread's function
  has returned. When \<^verbatim>\<open>start()\<close> throws in that thread the function never returns:
  \<^verbatim>\<open>std::terminate\<close> ends the process, at the latest while the main thread waits in this
  join. Where the process ends before that is decided by \<open>killed_at\<close> below.
\<close>

definition join_body :: "('a, 'd) env \<Rightarrow> 'a config \<Rightarrow> nat \<Rightarrow> 'a event list \<times> flow" where
  "join_body e c i =
     (if start_throws e i then ([], Abort)
      else case join_throws e i of
        Some w \<Rightarrow> ([], Throw w)
      | None \<Rightarrow> ([Join i], Normal))"

text \<open>Lines 166-168: the aggregator over the whole vector of testers, the summary, the
  CSV file.\<close>

definition report :: "('a, 'd) env \<Rightarrow> 'a config \<Rightarrow> 'a event list \<times> flow" where
  "report e c =
     (case aggregator_throws e of
        Some w \<Rightarrow> ([], Throw w)
      | None \<Rightarrow>
     (case display_throws e of
        Some w \<Rightarrow> ([Aggregate [0..<unat (num_thread c)]], Throw w)
      | None \<Rightarrow>
     (case write_throws e ''dns64perf.csv'' of
        Some w \<Rightarrow> ([Aggregate [0..<unat (num_thread c)], Display], Throw w)
      | None \<Rightarrow> ([Aggregate [0..<unat (num_thread c)], Display, WriteCsv ''dns64perf.csv''],
                 Normal))))"

text \<open>The body of the \<^verbatim>\<open>try\<close> block, lines 149-168.\<close>

definition try_block :: "('a, 'd) env \<Rightarrow> 'a config \<Rightarrow> 'a event list \<times> flow" where
  "try_block e c =
     seq (for_loop (unat (num_thread c)) (spawn_body e c) 0)
       (seq (for_loop (unat (num_thread c)) (join_body e c) 0) (report e c))"

text \<open>Whether a thread that was started has not been joined: the destructor of such a
  \<^verbatim>\<open>std::thread\<close>, run when \<^verbatim>\<open>main\<close> returns, calls \<^verbatim>\<open>std::terminate\<close>.\<close>

fun is_start :: "'a event \<Rightarrow> bool" where
  "is_start (ThreadStart i) = True"
| "is_start _ = False"

fun is_join :: "'a event \<Rightarrow> bool" where
  "is_join (Join i) = True"
| "is_join _ = False"

definition joinable_left :: "'a event list \<Rightarrow> bool" where
  "joinable_left tr = (length (filter is_join tr) < length (filter is_start tr))"

text \<open>
  Lines 137-172 as the main thread runs them when no worker ends the process under it
  before the join of that worker. An exception of a constructor is not caught. An
  exception in the \<^verbatim>\<open>try\<close> block is caught at line 169, its \<^verbatim>\<open>what()\<close> goes to standard
  error, and \<^verbatim>\<open>main\<close> returns 0 (line 172), which destroys the vector of threads.
\<close>

definition main_thread :: "('a, 'd) env \<Rightarrow> 'a config \<Rightarrow> 'a event list \<times> outcome" where
  "main_thread e c =
     (case for_loop (unat (num_thread c)) (construct_body e c) 0 of
        (tr0, Throw w) \<Rightarrow> (tr0, Terminate)
      | (tr0, Abort) \<Rightarrow> (tr0, Terminate)
      | (tr0, Normal) \<Rightarrow>
        (case try_block e c of
           (tr, Normal) \<Rightarrow> (tr0 @ tr, Return 0)
         | (tr, Abort) \<Rightarrow> (tr0 @ tr, Terminate)
         | (tr, Throw w) \<Rightarrow>
             (tr0 @ tr @ [Stderr (w @ ''\<newline>'')],
              if joinable_left tr then Terminate else Return 0)))"

text \<open>
  The number of events of a trace that the main thread performs before a worker whose
  \<^verbatim>\<open>start()\<close> throws ends the process: after the creation of such a thread \<open>i\<close> at most
  \<open>dies_after i\<close> more events follow. A worker can only end the process once its thread
  has been created.
\<close>

fun killed_at :: "('a, 'd) env \<Rightarrow> 'a event list \<Rightarrow> nat" where
  "killed_at e [] = 0"
| "killed_at e (ThreadStart i # tr) =
     (if start_throws e i then Suc (min (dies_after e i) (killed_at e tr))
      else Suc (killed_at e tr))"
| "killed_at e (x # tr) = Suc (killed_at e tr)"

text \<open>Lines 137-172: the run of the main thread, cut where a worker ends the process.\<close>

definition run_test :: "('a, 'd) env \<Rightarrow> 'a config \<Rightarrow> 'a event list \<times> outcome" where
  "run_test e c =
     (let (tr, out) = main_thread e c; k = killed_at e tr
      in if k < length tr then (take k tr, Terminate) else (tr, out))"

text \<open>\<^verbatim>\<open>main\<close>: \<open>argv\<close> is the whole argument vector, \<^verbatim>\<open>argc\<close> its length.\<close>

definition main :: "('a, 'd) env \<Rightarrow> string list \<Rightarrow> 'a event list \<times> outcome" where
  "main e argv =
     (case parse_args e argv of
        Reject msg \<Rightarrow> ([Stderr msg], Return (- 1))
      | ModZero \<Rightarrow> ([], ModuloByZero)
      | Accept c \<Rightarrow> run_test e c)"

subsection \<open>A concrete environment\<close>

text \<open>
  An environment for concrete runs: the scanners read the few fields listed, the
  \<^verbatim>\<open>double\<close> is kept as the \<^verbatim>\<open>timeval\<close> it splits into, nothing throws, and the affinity
  call succeeds on cores 0 to 7 and returns 22 (\<^verbatim>\<open>EINVAL\<close>) on any other. A worker whose
  \<^verbatim>\<open>start()\<close> throws (in a variation of this environment) ends the process at once.
\<close>

definition demo_env :: "(128 word, timeval) env" where
  "demo_env =
     \<lparr>inet_pton = map_of [(''::1'', 1)],
      sscanf_hu = map_of [(''53'', 53), (''2'', 2)],
      sscanf_subnet = map_of [(''192.0.2.0/24'', (192, 0, 2, 0, 24)),
                              (''192.0.2.77/24'', (192, 0, 2, 77, 24)),
                              (''192.0.2.77/0'', (192, 0, 2, 77, 0))],
      sscanf_u = map_of [(''0'', 0), (''1'', 1), (''2'', 2), (''3'', 3), (''4'', 4), (''10'', 10), (''64'', 64),
                         (''256'', 256), (''257'', 257), (''65536'', 65536), (''65537'', 65537),
                         (''2147483649'', 2147483649)],
      sscanf_lu = map_of [(''1000000'', 1000000),
                          (''18446744073709551615'', 18446744073709551615)],
      sscanf_lf = map_of [(''1.5'', (1, 500000))],
      modf_timeval = id,
      clock_now = 1000,
      ctor_throws = (\<lambda>a. None),
      start_throws = (\<lambda>i. False),
      dies_after = (\<lambda>i. 0),
      thread_throws = (\<lambda>i. None),
      setaffinity_rc = (\<lambda>i core. if unat core < 8 then 0 else 22),
      join_throws = (\<lambda>i. None),
      aggregator_throws = None,
      display_throws = None,
      write_throws = (\<lambda>p. None)\<rparr>"

text \<open>The argument vector for a subnet, a number of requests, a burst size and a
  number of threads, the other fields fixed.\<close>

definition demo_argv :: "string \<Rightarrow> string \<Rightarrow> string \<Rightarrow> string \<Rightarrow> string list" where
  "demo_argv subnet nreq nburst nthread =
     [''dns64perf++'', ''::1'', ''53'', subnet, nreq, nburst, nthread, ''2'', ''1000000'', ''1.5'']"

subsection \<open>The shape of a trace\<close>

text \<open>
  Names for the parts a trace of the run is made of: the first \<open>k\<close> constructions, the
  events of one pass through the body of the thread loop, the first \<open>k\<close> such passes, the
  first \<open>k\<close> joins, and the first \<open>m\<close> steps of the report.
\<close>

definition constructions :: "('a, 'd) env \<Rightarrow> 'a config \<Rightarrow> nat \<Rightarrow> 'a event list" where
  "constructions e c k = map (\<lambda>j. Construct (dns_tester_args e c j)) [0..<k]"

definition spawn_events :: "('a, 'd) env \<Rightarrow> 'a config \<Rightarrow> nat \<Rightarrow> 'a event list" where
  "spawn_events e c i =
     [ThreadStart i, SetName i (''Receiver '' @ to_string i),
      SetAffinity i (num_thread c + of_nat i),
      Stderr (affinity_message (num_thread c) i (setaffinity_rc e i (num_thread c + of_nat i)))]"

definition spawns :: "('a, 'd) env \<Rightarrow> 'a config \<Rightarrow> nat \<Rightarrow> 'a event list" where
  "spawns e c k = concat (map (spawn_events e c) [0..<k])"

definition joins :: "nat \<Rightarrow> 'a event list" where
  "joins k = map Join [0..<k]"

definition report_events :: "nat \<Rightarrow> nat \<Rightarrow> 'a event list" where
  "report_events n m = take m [Aggregate [0..<n], Display, WriteCsv ''dns64perf.csv'']"

text \<open>The configuration that validation produces for the subnet 192.0.2.77/24, 256
  requests, bursts of 64 and 4 threads.\<close>

definition demo_config :: "128 word config" where
  "demo_config = \<lparr>server_addr = 1, port = 53, ip = 0xC0000200, netmask = 24, num_req = 256,
     num_burst = 64, num_thread = 4, num_port = 2, burst_delay = 1000000, timeout = (1, 500000)\<rparr>"

text \<open>Variations: the affinity call fails with 22 for every thread; the constructor of
  worker 2 throws; \<^verbatim>\<open>start()\<close> of worker 1 throws in its thread.\<close>

definition einval_env :: "(128 word, timeval) env" where
  "einval_env = demo_env\<lparr>setaffinity_rc := (\<lambda>i core. 22)\<rparr>"

definition bind_fails_env :: "(128 word, timeval) env" where
  "bind_fails_env = demo_env\<lparr>ctor_throws := (\<lambda>a. if ta_thread_id a = 2 then Some ''bind'' else None)\<rparr>"

definition start_fails_env :: "(128 word, timeval) env" where
  "start_fails_env = demo_env\<lparr>start_throws := (\<lambda>i. i = 1)\<rparr>"

text \<open>The configuration that validation produces for no request, bursts of 1 and
  2147483649 threads.\<close>

definition many_threads_config :: "128 word config" where
  "many_threads_config = \<lparr>server_addr = 1, port = 53, ip = 0xC0000200, netmask = 24, num_req = 0,
       num_burst = 1, num_thread = 2147483649, num_port = 2, burst_delay = 1000000,
       timeout = (1, 500000)\<rparr>"

text \<open>A delay between bursts of \<open>2 ^ 64 - 1\<close> ns with 3 requests, bursts of 1 and 3 threads,
  and the configuration that validation produces for it.\<close>

definition long_delay_argv :: "string list" where
  "long_delay_argv =
     [''dns64perf++'', ''::1'', ''53'', ''192.0.2.0/24'', ''3'', ''1'', ''3'', ''2'',
      ''18446744073709551615'', ''1.5'']"

definition long_delay_config :: "128 word config" where
  "long_delay_config = \<lparr>server_addr = 1, port = 53, ip = 0xC0000200, netmask = 24, num_req = 3,
     num_burst = 1, num_thread = 3, num_port = 2, burst_delay = 18446744073709551615,
     timeout = (1, 500000)\<rparr>"

text \<open>An environment in which memory is exhausted once \<open>2 ^ 31\<close> workers exist: the
  constructor of any further worker throws.\<close>

definition finite_memory_env :: "(128 word, timeval) env" where
  "finite_memory_env =
     demo_env\<lparr>ctor_throws := (\<lambda>a. if 2 ^ 31 \<le> unat (ta_thread_id a) then Some ''std::bad_alloc''
                                  else None)\<rparr>"

subsection \<open>Classes of events\<close>

text \<open>Text on standard error, and a trace without it; the three steps of the report.\<close>

fun is_stderr :: "'a event \<Rightarrow> bool" where
  "is_stderr (Stderr s) = True"
| "is_stderr _ = False"

definition quiet :: "'a event list \<Rightarrow> 'a event list" where
  "quiet tr = filter (\<lambda>x. \<not> is_stderr x) tr"

text \<open>An event with the text on standard error blanked.\<close>

fun erase :: "'a event \<Rightarrow> 'a event" where
  "erase (Stderr s) = Stderr []"
| "erase x = x"

fun report_event :: "'a event \<Rightarrow> bool" where
  "report_event (Aggregate ws) = True"
| "report_event Display = True"
| "report_event (WriteCsv p) = True"
| "report_event _ = False"


section \<open>Properties\<close>

subsection \<open>Words and the checks of validation\<close>


declare for_loop.simps [simp del] to_string.simps [simp del]

lemma push_bit_1_minus_1: "push_bit n (1 :: 64 word) - 1 = mask n"
  by (simp add: mask_eq_exp_minus_1 push_bit_eq_mult)

lemma subnet_ip_bit:
  "bit (subnet_ip t0 t1 t2 t3 nm) k \<longleftrightarrow>
     k < 32 \<and> 32 - unat nm \<le> k \<and>
     bit (push_bit 24 (ucast t0 :: 32 word) OR push_bit 16 (ucast t1 :: 32 word)
          OR push_bit 8 (ucast t2 :: 32 word) OR (ucast t3 :: 32 word)) k"
  unfolding subnet_ip_def push_bit_1_minus_1
  by (auto simp add: bit_simps)

lemma subnet_ip_eq:
  "subnet_ip t0 t1 t2 t3 nm =
     (push_bit 24 (ucast t0) OR push_bit 16 (ucast t1) OR push_bit 8 (ucast t2) OR ucast t3)
       AND NOT (mask (32 - unat nm))"
  by (rule bit_word_eqI) (auto simp add: subnet_ip_bit bit_simps)

lemma unat_2p_64: "k \<le> 32 \<Longrightarrow> unat (2 ^ k :: 64 word) = 2 ^ k"
proof -
  assume "k \<le> 32"
  then have "(2::nat) ^ k \<le> 2 ^ 32" by (intro power_increasing) simp_all
  then have "(2::nat) ^ k < 2 ^ 64" by simp
  moreover have "(2 ^ k :: 64 word) = of_nat (2 ^ k)" by simp
  ultimately show ?thesis by (simp only: unat_of_nat) simp
qed

lemma unat_ucast_32_64: "unat (ucast (q :: 32 word) :: 64 word) = unat q"
proof -
  have "unat q < 2 ^ 32" using unsigned_less [of q] by simp
  then have "unat q < 2 ^ 64" by simp
  then show ?thesis by (simp add: unsigned_ucast_eq take_bit_nat_eq_self)
qed

lemma capacity_test:
  "(2 ^ (32 - unat (nm :: 8 word)) < (ucast (q :: 32 word) :: 64 word)) \<longleftrightarrow> 2 ^ (32 - unat nm) < unat q"
  by (simp add: word_less_nat_alt unat_2p_64 unat_ucast_32_64)

lemma seq_snd_cases: "snd (seq r k) = Normal \<longleftrightarrow> snd r = Normal \<and> snd k = Normal"
  by (cases r; cases k) (auto simp: seq_def split: flow.splits)

lemma main_thread_outcome: "snd (main_thread e c) = Return 0 \<or> snd (main_thread e c) = Terminate"
  by (auto simp: main_thread_def split: prod.splits flow.splits)

lemma main_Reject: "parse_args e argv = Reject msg \<Longrightarrow> main e argv = ([Stderr msg], Return (- 1))"
  by (simp add: main_def)

lemma main_ModZero: "parse_args e argv = ModZero \<Longrightarrow> main e argv = ([], ModuloByZero)"
  by (simp add: main_def)

lemma main_Accept: "parse_args e argv = Accept c \<Longrightarrow> main e argv = run_test e c"
  by (simp add: main_def)

lemma seq_Normal: "snd r = Normal \<Longrightarrow> seq r k = (fst r @ fst k, snd k)"
  by (simp add: seq_def)

lemma seq_stop: "snd r \<noteq> Normal \<Longrightarrow> seq r k = r"
  by (cases "snd r") (simp_all add: seq_def)

lemma for_loop_done: "n \<le> i \<Longrightarrow> for_loop n body i = ([], Normal)"
  by (simp add: for_loop.simps [of n body i])

lemma for_loop_step:
  "i < n \<Longrightarrow> for_loop n body i = seq (body i) (for_loop n body (Suc i))"
  by (simp add: for_loop.simps [of n body i])

lemma for_loop_all_Normal:
  "(\<And>j. i \<le> j \<Longrightarrow> j < n \<Longrightarrow> snd (body j) = Normal) \<Longrightarrow>
   for_loop n body i = (concat (map (\<lambda>j. fst (body j)) [i..<n]), Normal)"
proof (induction n body i rule: for_loop.induct)
  case (1 n body i)
  show ?case
  proof (cases "i < n")
    case False
    then show ?thesis by (simp add: for_loop_done)
  next
    case True
    have "for_loop n body (Suc i) = (concat (map (\<lambda>j. fst (body j)) [Suc i..<n]), Normal)"
      using "1.IH" [OF True] "1.prems" by simp
    moreover have "snd (body i) = Normal" using "1.prems" True by simp
    ultimately show ?thesis
      using True by (simp add: for_loop_step seq_Normal upt_conv_Cons)
  qed
qed

lemma for_loop_stops:
  "i \<le> k \<Longrightarrow> k < n \<Longrightarrow> snd (body k) \<noteq> Normal \<Longrightarrow>
   (\<And>j. i \<le> j \<Longrightarrow> j < k \<Longrightarrow> snd (body j) = Normal) \<Longrightarrow>
   for_loop n body i = (concat (map (\<lambda>j. fst (body j)) [i..<k]) @ fst (body k), snd (body k))"
proof (induction n body i rule: for_loop.induct)
  case (1 n body i)
  have lt: "i < n" using "1.prems" by simp
  show ?case
  proof (cases "i = k")
    case True
    then show ?thesis using lt "1.prems"(3) by (simp add: for_loop_step seq_stop)
  next
    case False
    then have ik: "i < k" using "1.prems"(1) by simp
    have "for_loop n body (Suc i) =
        (concat (map (\<lambda>j. fst (body j)) [Suc i..<k]) @ fst (body k), snd (body k))"
      using "1.IH" [OF lt] "1.prems" ik by simp
    moreover have "snd (body i) = Normal" using "1.prems"(4) ik by simp
    ultimately show ?thesis
      using lt ik by (simp add: for_loop_step seq_Normal upt_conv_Cons)
  qed
qed

lemma for_loop_cases:
  obtains (completed) "\<And>j. i \<le> j \<Longrightarrow> j < n \<Longrightarrow> snd (body j) = Normal"
      "for_loop n body i = (concat (map (\<lambda>j. fst (body j)) [i..<n]), Normal)"
  | (stopped) k where "i \<le> k" "k < n" "snd (body k) \<noteq> Normal"
      "\<And>j. i \<le> j \<Longrightarrow> j < k \<Longrightarrow> snd (body j) = Normal"
      "for_loop n body i = (concat (map (\<lambda>j. fst (body j)) [i..<k]) @ fst (body k), snd (body k))"
proof (cases "\<exists>k. i \<le> k \<and> k < n \<and> snd (body k) \<noteq> Normal")
  case False
  then have a: "\<And>j. i \<le> j \<Longrightarrow> j < n \<Longrightarrow> snd (body j) = Normal" by blast
  then show ?thesis using for_loop_all_Normal [of i n body] completed by blast
next
  case True
  define k where "k = (LEAST k. i \<le> k \<and> k < n \<and> snd (body k) \<noteq> Normal)"
  have p: "i \<le> k \<and> k < n \<and> snd (body k) \<noteq> Normal"
    unfolding k_def using True by (rule LeastI_ex)
  have q: "\<And>j. i \<le> j \<Longrightarrow> j < k \<Longrightarrow> snd (body j) = Normal"
  proof (rule ccontr)
    fix j assume "i \<le> j" "j < k" "snd (body j) \<noteq> Normal"
    moreover have "j < n" using \<open>j < k\<close> p by simp
    ultimately have "k \<le> j" unfolding k_def by (intro Least_le) simp
    with \<open>j < k\<close> show False by simp
  qed
  show ?thesis using stopped [of k] p q for_loop_stops [of i k n body] by blast
qed

lemma for_loop_set:
  "x \<in> set (fst (for_loop n body i)) \<Longrightarrow> \<exists>j. i \<le> j \<and> j < n \<and> x \<in> set (fst (body j))"
  by (rule for_loop_cases [of i n body]) (auto simp: )


subsection \<open>The three loops of the run\<close>

lemma construct_body_None:
  "ctor_throws e (dns_tester_args e c j) = None \<Longrightarrow>
   construct_body e c j = ([Construct (dns_tester_args e c j)], Normal)"
  by (simp add: construct_body_def)

lemma construct_body_Some:
  "ctor_throws e (dns_tester_args e c j) = Some w \<Longrightarrow> construct_body e c j = ([], Throw w)"
  by (simp add: construct_body_def)

lemma construct_body_Normal_iff:
  "snd (construct_body e c j) = Normal \<longleftrightarrow> ctor_throws e (dns_tester_args e c j) = None"
  by (simp add: construct_body_def split: option.splits)

lemma spawn_body_None:
  "thread_throws e j = None \<Longrightarrow> spawn_body e c j = (spawn_events e c j, Normal)"
  by (simp add: spawn_body_def spawn_events_def Let_def)

lemma spawn_body_Some: "thread_throws e j = Some w \<Longrightarrow> spawn_body e c j = ([], Throw w)"
  by (simp add: spawn_body_def)

lemma spawn_body_Normal_iff: "snd (spawn_body e c j) = Normal \<longleftrightarrow> thread_throws e j = None"
  by (simp add: spawn_body_def Let_def split: option.splits)

lemma join_body_ok:
  "\<not> start_throws e j \<Longrightarrow> join_throws e j = None \<Longrightarrow> join_body e c j = ([Join j], Normal)"
  by (simp add: join_body_def)

lemma join_body_Normal_iff:
  "snd (join_body e c j) = Normal \<longleftrightarrow> \<not> start_throws e j \<and> join_throws e j = None"
  by (simp add: join_body_def split: option.splits)

lemma concat_bodies:
  "(\<And>j. j < k \<Longrightarrow> fst (body j) = f j) \<Longrightarrow>
   concat (map (\<lambda>j. fst (body j)) [0..<k]) = concat (map f [0..<k])"
  by (rule arg_cong [where f = concat]) simp

lemma concat_singletons: "concat (map (\<lambda>j. [f j]) xs) = map f xs"
  by (induction xs) simp_all

lemma construct_prefix:
  assumes "\<And>j. j < k \<Longrightarrow> ctor_throws e (dns_tester_args e c j) = None"
  shows "concat (map (\<lambda>j. fst (construct_body e c j)) [0..<k]) = constructions e c k"
proof -
  have "concat (map (\<lambda>j. fst (construct_body e c j)) [0..<k])
      = concat (map (\<lambda>j. [Construct (dns_tester_args e c j)]) [0..<k])"
    using assms by (intro concat_bodies) (simp add: construct_body_None)
  then show ?thesis by (simp add: constructions_def concat_singletons)
qed

lemma spawn_prefix:
  assumes "\<And>j. j < k \<Longrightarrow> thread_throws e j = None"
  shows "concat (map (\<lambda>j. fst (spawn_body e c j)) [0..<k]) = spawns e c k"
  unfolding spawns_def using assms by (intro concat_bodies) (simp add: spawn_body_None)

lemma join_prefix:
  assumes "\<And>j. j < k \<Longrightarrow> \<not> start_throws e j \<and> join_throws e j = None"
  shows "concat (map (\<lambda>j. fst (join_body e c j)) [0..<k]) = joins k"
proof -
  have "concat (map (\<lambda>j. fst (join_body e c j)) [0..<k]) = concat (map (\<lambda>j. [Join j]) [0..<k])"
    using assms by (intro concat_bodies) (simp add: join_body_ok)
  then show ?thesis by (simp add: joins_def concat_singletons)
qed

text \<open>The construction loop: complete, or stopped at the first constructor that throws.\<close>

lemma construct_loop_cases:
  obtains (completed) "\<And>j. j < n \<Longrightarrow> ctor_throws e (dns_tester_args e c j) = None"
      "for_loop n (construct_body e c) 0 = (constructions e c n, Normal)"
  | (stopped) k w where "k < n" "ctor_throws e (dns_tester_args e c k) = Some w"
      "\<And>j. j < k \<Longrightarrow> ctor_throws e (dns_tester_args e c j) = None"
      "for_loop n (construct_body e c) 0 = (constructions e c k, Throw w)"
proof (cases rule: for_loop_cases [of 0 n "construct_body e c"])
  case completed
  then have a: "\<And>j. j < n \<Longrightarrow> ctor_throws e (dns_tester_args e c j) = None"
    by (simp add: construct_body_Normal_iff)
  show ?thesis
    using that(1) a completed(2) construct_prefix [of n e c] by simp
next
  case (stopped k)
  then have a: "\<And>j. j < k \<Longrightarrow> ctor_throws e (dns_tester_args e c j) = None"
    by (simp add: construct_body_Normal_iff)
  from stopped(3) obtain w where w: "ctor_throws e (dns_tester_args e c k) = Some w"
    by (auto simp: construct_body_Normal_iff)
  show ?thesis
    using that(2) [of k w] stopped(2,5) a w construct_prefix [of k e c]
    by (simp add: construct_body_Some)
qed

lemma spawn_loop_cases:
  obtains (completed) "\<And>j. j < n \<Longrightarrow> thread_throws e j = None"
      "for_loop n (spawn_body e c) 0 = (spawns e c n, Normal)"
  | (stopped) k w where "k < n" "thread_throws e k = Some w"
      "\<And>j. j < k \<Longrightarrow> thread_throws e j = None"
      "for_loop n (spawn_body e c) 0 = (spawns e c k, Throw w)"
proof (cases rule: for_loop_cases [of 0 n "spawn_body e c"])
  case completed
  then have a: "\<And>j. j < n \<Longrightarrow> thread_throws e j = None"
    by (simp add: spawn_body_Normal_iff)
  show ?thesis
    using that(1) a completed(2) spawn_prefix [of n e c] by simp
next
  case (stopped k)
  then have a: "\<And>j. j < k \<Longrightarrow> thread_throws e j = None"
    by (simp add: spawn_body_Normal_iff)
  from stopped(3) obtain w where w: "thread_throws e k = Some w"
    by (auto simp: spawn_body_Normal_iff)
  show ?thesis
    using that(2) [of k w] stopped(2,5) a w spawn_prefix [of k e c]
    by (simp add: spawn_body_Some)
qed

lemma join_loop_cases:
  obtains (completed) "\<And>j. j < n \<Longrightarrow> \<not> start_throws e j \<and> join_throws e j = None"
      "for_loop n (join_body e c) 0 = (joins n, Normal)"
  | (aborted) k where "k < n" "start_throws e k"
      "\<And>j. j < k \<Longrightarrow> \<not> start_throws e j \<and> join_throws e j = None"
      "for_loop n (join_body e c) 0 = (joins k, Abort)"
  | (stopped) k w where "k < n" "\<not> start_throws e k" "join_throws e k = Some w"
      "\<And>j. j < k \<Longrightarrow> \<not> start_throws e j \<and> join_throws e j = None"
      "for_loop n (join_body e c) 0 = (joins k, Throw w)"
proof (cases rule: for_loop_cases [of 0 n "join_body e c"])
  case completed
  then have a: "\<And>j. j < n \<Longrightarrow> \<not> start_throws e j \<and> join_throws e j = None"
    by (simp add: join_body_Normal_iff)
  show ?thesis
    using that(1) a completed(2) join_prefix [of n e c] by simp
next
  case (stopped k)
  then have a: "\<And>j. j < k \<Longrightarrow> \<not> start_throws e j \<and> join_throws e j = None"
    by (simp add: join_body_Normal_iff)
  have p: "concat (map (\<lambda>j. fst (join_body e c j)) [0..<k]) = joins k"
    using a by (rule join_prefix)
  show ?thesis
  proof (cases "start_throws e k")
    case True
    then have "join_body e c k = ([], Abort)" by (simp add: join_body_def)
    then show ?thesis using that(2) [of k] stopped(2,5) a True p by simp
  next
    case False
    with stopped(3) obtain w where w: "join_throws e k = Some w"
      by (auto simp: join_body_Normal_iff)
    then have "join_body e c k = ([], Throw w)" using False by (simp add: join_body_def)
    then show ?thesis using that(3) [of k w] stopped(2,5) a False w p by simp
  qed
qed


subsection \<open>The runs of the second half\<close>


lemma filter_start_spawns: "length (filter is_start (spawns e c k)) = k"
  by (induction k) (simp_all add: spawns_def spawn_events_def)

lemma filter_join_spawns: "filter is_join (spawns e c k) = []"
  by (induction k) (simp_all add: spawns_def spawn_events_def)

lemma filter_start_joins: "filter is_start (joins k) = []"
  by (induction k) (simp_all add: joins_def)

lemma filter_join_joins: "length (filter is_join (joins k)) = k"
  by (induction k) (simp_all add: joins_def)

lemma joinable_left_spawns: "joinable_left (spawns e c k) \<longleftrightarrow> 0 < k"
  by (simp add: joinable_left_def filter_start_spawns filter_join_spawns)

lemma joinable_left_joins: "joinable_left (spawns e c n @ joins k) \<longleftrightarrow> k < n"
  by (simp add: joinable_left_def filter_start_spawns filter_join_spawns
      filter_start_joins filter_join_joins)

lemma report_cases:
  obtains (reported) "aggregator_throws e = None" "display_throws e = None"
      "write_throws e ''dns64perf.csv'' = None"
      "report e c = (report_events (unat (num_thread c)) 3, Normal)"
  | (failed) m w where "m < 3"
      "m = 0 \<and> aggregator_throws e = Some w
       \<or> m = 1 \<and> aggregator_throws e = None \<and> display_throws e = Some w
       \<or> m = 2 \<and> aggregator_throws e = None \<and> display_throws e = None
          \<and> write_throws e ''dns64perf.csv'' = Some w"
      "report e c = (report_events (unat (num_thread c)) m, Throw w)"
proof (cases "aggregator_throws e")
  case (Some w)
  then show ?thesis using failed [of 0 w] by (simp add: report_def report_events_def)
next
  case None
  note a = this
  show ?thesis
  proof (cases "display_throws e")
    case (Some w)
    then show ?thesis using failed [of 1 w] a by (simp add: report_def report_events_def)
  next
    case None
    note d = this
    show ?thesis
    proof (cases "write_throws e ''dns64perf.csv''")
      case (Some w)
      then show ?thesis using failed [of 2 w] a d
        by (simp add: report_def report_events_def numeral_2_eq_2)
    next
      case None
      then show ?thesis using reported a d
        by (simp add: report_def report_events_def numeral_3_eq_3)
    qed
  qed
qed

lemma joinable_left_report:
  "joinable_left (spawns e c n @ joins n @ report_events n' m) = False"
proof -
  have r: "filter is_start (report_events n' m) = []" "filter is_join (report_events n' m) = []"
    by (cases m; cases "m - 1"; cases "m - 2"; simp add: report_events_def)+
  show ?thesis
    by (simp only: joinable_left_def filter_append length_append r filter_start_spawns
        filter_join_spawns filter_start_joins filter_join_joins) simp
qed

text \<open>Every run of the second half of \<^verbatim>\<open>main\<close> is one of six.\<close>

lemma main_thread_cases:
  fixes e :: "('a, 'd) env" and c :: "'a config"
  defines "n \<equiv> unat (num_thread c)"
  obtains
    (ctor_failed) k w where "k < n" "ctor_throws e (dns_tester_args e c k) = Some w"
      "\<And>j. j < k \<Longrightarrow> ctor_throws e (dns_tester_args e c j) = None"
      "main_thread e c = (constructions e c k, Terminate)"
  | (thread_failed) k w where "k < n" "thread_throws e k = Some w"
      "\<And>j. j < n \<Longrightarrow> ctor_throws e (dns_tester_args e c j) = None"
      "\<And>j. j < k \<Longrightarrow> thread_throws e j = None"
      "main_thread e c = (constructions e c n @ spawns e c k @ [Stderr (w @ ''\<newline>'')],
                      if 0 < k then Terminate else Return 0)"
  | (start_failed) k where "k < n" "start_throws e k"
      "\<And>j. j < n \<Longrightarrow> ctor_throws e (dns_tester_args e c j) = None"
      "\<And>j. j < n \<Longrightarrow> thread_throws e j = None"
      "\<And>j. j < k \<Longrightarrow> \<not> start_throws e j \<and> join_throws e j = None"
      "main_thread e c = (constructions e c n @ spawns e c n @ joins k, Terminate)"
  | (join_failed) k w where "k < n" "\<not> start_throws e k" "join_throws e k = Some w"
      "\<And>j. j < n \<Longrightarrow> ctor_throws e (dns_tester_args e c j) = None"
      "\<And>j. j < n \<Longrightarrow> thread_throws e j = None"
      "\<And>j. j < k \<Longrightarrow> \<not> start_throws e j \<and> join_throws e j = None"
      "main_thread e c = (constructions e c n @ spawns e c n @ joins k @ [Stderr (w @ ''\<newline>'')],
                      Terminate)"
  | (report_failed) m w where "m < 3"
      "m = 0 \<and> aggregator_throws e = Some w
       \<or> m = 1 \<and> aggregator_throws e = None \<and> display_throws e = Some w
       \<or> m = 2 \<and> aggregator_throws e = None \<and> display_throws e = None
          \<and> write_throws e ''dns64perf.csv'' = Some w"
      "\<And>j. j < n \<Longrightarrow> ctor_throws e (dns_tester_args e c j) = None"
      "\<And>j. j < n \<Longrightarrow> thread_throws e j = None"
      "\<And>j. j < n \<Longrightarrow> \<not> start_throws e j \<and> join_throws e j = None"
      "main_thread e c = (constructions e c n @ spawns e c n @ joins n @ report_events n m
                       @ [Stderr (w @ ''\<newline>'')], Return 0)"
  | (reported)
      "\<And>j. j < n \<Longrightarrow> ctor_throws e (dns_tester_args e c j) = None"
      "\<And>j. j < n \<Longrightarrow> thread_throws e j = None"
      "\<And>j. j < n \<Longrightarrow> \<not> start_throws e j \<and> join_throws e j = None"
      "aggregator_throws e = None" "display_throws e = None"
      "write_throws e ''dns64perf.csv'' = None"
      "main_thread e c = (constructions e c n @ spawns e c n @ joins n @ report_events n 3, Return 0)"
proof (cases rule: construct_loop_cases [of n e c])
  case (stopped k w)
  then show ?thesis using ctor_failed [of k w] by (simp add: main_thread_def n_def)
next
  case completed
  note ctor = this
  show ?thesis
  proof (cases rule: spawn_loop_cases [of n e c])
    case (stopped k w)
    then have "try_block e c = (spawns e c k, Throw w)"
      by (simp add: try_block_def n_def seq_stop)
    then have "main_thread e c = (constructions e c n @ spawns e c k @ [Stderr (w @ ''\<newline>'')],
                      if 0 < k then Terminate else Return 0)"
      using ctor(2) by (simp add: main_thread_def n_def joinable_left_spawns)
    then show ?thesis using thread_failed [of k w] stopped ctor(1) by blast
  next
    case completed
    note spawn = this
    show ?thesis
    proof (cases rule: join_loop_cases [of n e c])
      case (aborted k)
      then have "try_block e c = (spawns e c n @ joins k, Abort)"
        using spawn(2) by (simp add: try_block_def n_def seq_stop seq_Normal)
      then have "main_thread e c = (constructions e c n @ spawns e c n @ joins k, Terminate)"
        using ctor(2) by (simp add: main_thread_def n_def)
      then show ?thesis using start_failed [of k] aborted ctor(1) spawn(1) by blast
    next
      case (stopped k w)
      then have "try_block e c = (spawns e c n @ joins k, Throw w)"
        using spawn(2) by (simp add: try_block_def n_def seq_stop seq_Normal)
      then have "main_thread e c =
          (constructions e c n @ spawns e c n @ joins k @ [Stderr (w @ ''\<newline>'')], Terminate)"
        using ctor(2) stopped(1) by (simp add: main_thread_def n_def joinable_left_joins)
      then show ?thesis using join_failed [of k w] stopped ctor(1) spawn(1) by blast
    next
      case completed
      note join = this
      show ?thesis
      proof (cases rule: report_cases [of e c])
        case reported
        then have "try_block e c = (spawns e c n @ joins n @ report_events n 3, Normal)"
          using spawn(2) join(2) by (simp add: try_block_def n_def seq_Normal)
        then have "main_thread e c =
            (constructions e c n @ spawns e c n @ joins n @ report_events n 3, Return 0)"
          using ctor(2) by (simp add: main_thread_def n_def)
        then show ?thesis
          using that(6) ctor(1) spawn(1) join(1) reported(1,2,3) by blast
      next
        case (failed m w)
        then have "try_block e c = (spawns e c n @ joins n @ report_events n m, Throw w)"
          using spawn(2) join(2) by (simp add: try_block_def n_def seq_Normal seq_stop)
        then have "main_thread e c =
            (constructions e c n @ spawns e c n @ joins n @ report_events n m
               @ [Stderr (w @ ''\<newline>'')], Return 0)"
          using ctor(2) joinable_left_report [of e c n n m] by (simp add: main_thread_def n_def)
        then show ?thesis
          using report_failed [of m w] failed(1,2) ctor(1) spawn(1) join(1) by blast
      qed
    qed
  qed
qed

subsection \<open>Accepted configurations and the parts of a trace\<close>


lemma parse_args_AcceptD:
  assumes "parse_args e argv = Accept c"
  shows "10 \<le> length argv"
    and "inet_pton e (argv ! 1) = Some (server_addr c)"
    and "sscanf_hu e (argv ! 2) = Some (port c)"
    and "\<exists>t0 t1 t2 t3. sscanf_subnet e (argv ! 3) = Some (t0, t1, t2, t3, netmask c)
           \<and> ip c = subnet_ip t0 t1 t2 t3 (netmask c)"
    and "netmask c \<le> 32"
    and "sscanf_u e (argv ! 4) = Some (num_req c)"
    and "unat (num_req c) \<le> 2 ^ (32 - unat (netmask c))"
    and "sscanf_u e (argv ! 5) = Some (num_burst c)"
    and "sscanf_u e (argv ! 6) = Some (num_thread c)"
    and "num_thread c * num_burst c \<noteq> 0"
    and "num_req c mod (num_thread c * num_burst c) = 0"
    and "sscanf_hu e (argv ! 7) = Some (num_port c)"
    and "sscanf_lu e (argv ! 8) = Some (burst_delay c)"
  using assms
  by (auto simp: parse_args_def capacity_test not_less split: if_splits option.splits del: mod_0_imp_dvd)

lemma set_constructions:
  "x \<in> set (constructions e c k) \<longleftrightarrow> (\<exists>j<k. x = Construct (dns_tester_args e c j))"
  by (auto simp: constructions_def)

lemma set_spawns: "x \<in> set (spawns e c k) \<longleftrightarrow> (\<exists>j<k. x \<in> set (spawn_events e c j))"
  by (auto simp: spawns_def)

lemma set_joins: "x \<in> set (joins k) \<longleftrightarrow> (\<exists>j<k. x = Join j)"
  by (auto simp: joins_def)

lemma set_report_events:
  "x \<in> set (report_events n m) \<longleftrightarrow>
     (0 < m \<and> x = Aggregate [0..<n]) \<or> (1 < m \<and> x = Display)
     \<or> (2 < m \<and> x = WriteCsv ''dns64perf.csv'')"
  by (cases m; cases "m - 1"; cases "m - 2"; auto simp: report_events_def)

lemma length_constructions: "length (constructions e c k) = k"
  by (simp add: constructions_def)

lemma nth_constructions: "j < k \<Longrightarrow> constructions e c k ! j = Construct (dns_tester_args e c j)"
  by (simp add: constructions_def)

text \<open>A trace starts with the constructions; nothing after them is a construction.\<close>

lemma main_thread_decomp:
  "\<exists>k rest. fst (main_thread e c) = constructions e c k @ rest
     \<and> k \<le> unat (num_thread c)
     \<and> (\<forall>a. Construct a \<notin> set rest)
     \<and> (\<forall>j<k. ctor_throws e (dns_tester_args e c j) = None)
     \<and> (k < unat (num_thread c) \<longrightarrow> ctor_throws e (dns_tester_args e c k) \<noteq> None)"
proof (cases rule: main_thread_cases [of c e])
  case (ctor_failed k w)
  then show ?thesis by (intro exI [of _ k] exI [of _ "[]"]) simp
next
  case (thread_failed k w)
  then show ?thesis
    by (intro exI [of _ "unat (num_thread c)"] exI [of _ "spawns e c k @ [Stderr (w @ ''\<newline>'')]"])
       (auto simp: set_spawns spawn_events_def)
next
  case (start_failed k)
  then show ?thesis
    by (intro exI [of _ "unat (num_thread c)"] exI [of _ "spawns e c (unat (num_thread c)) @ joins k"])
       (auto simp: set_spawns spawn_events_def set_joins)
next
  case (join_failed k w)
  then show ?thesis
    by (intro exI [of _ "unat (num_thread c)"]
          exI [of _ "spawns e c (unat (num_thread c)) @ joins k @ [Stderr (w @ ''\<newline>'')]"])
       (auto simp: set_spawns spawn_events_def set_joins)
next
  case (report_failed m w)
  then show ?thesis
    by (intro exI [of _ "unat (num_thread c)"]
          exI [of _ "spawns e c (unat (num_thread c)) @ joins (unat (num_thread c))
                     @ report_events (unat (num_thread c)) m @ [Stderr (w @ ''\<newline>'')]"])
       (auto simp: set_spawns spawn_events_def set_joins set_report_events)
next
  case reported
  then show ?thesis
    by (intro exI [of _ "unat (num_thread c)"]
          exI [of _ "spawns e c (unat (num_thread c)) @ joins (unat (num_thread c))
                     @ report_events (unat (num_thread c)) 3"])
       (auto simp: set_spawns spawn_events_def set_joins set_report_events)
qed

lemma start_offset:
  "(d div ucast (n :: 32 word)) * of_nat i = (of_nat (i * (unat d div unat n)) :: 64 word)"
proof -
  have "d div ucast n = of_nat (unat d div unat (ucast n :: 64 word))"
    by (rule word_arith_nat_div)
  then show ?thesis by (simp add: unat_ucast_32_64 mult.commute)
qed

lemma start_time_eq:
  "ta_test_start_time (dns_tester_args e c i)
     = clock_now e + 2000000000 + of_nat (i * (unat (burst_delay c) div unat (num_thread c)))"
  by (simp add: dns_tester_args_def reference_time_def start_offset)

lemma sint_start_time:
  fixes t :: "64 word"
  assumes "sint t + 2000000000 + int k < 2 ^ 63"
  shows "sint (t + 2000000000 + of_nat k) = sint t + 2000000000 + int k"
proof -
  have lo: "- (2 ^ 63) \<le> sint t + 2000000000 + int k"
    using sint_ge [of t] by simp
  have "t + 2000000000 + of_nat k = (word_of_int (sint t + 2000000000 + int k) :: 64 word)"
    by simp
  then have "sint (t + 2000000000 + of_nat k) = signed_take_bit 63 (sint t + 2000000000 + int k)"
    by (simp only: sint_sbintrunc') simp
  also have "\<dots> = sint t + 2000000000 + int k"
    using lo assms by (intro signed_take_bit_int_eq_self) simp_all
  finally show ?thesis .
qed

lemma thread_id_eq: "ta_thread_id (dns_tester_args e c i) = of_nat i"
  by (simp add: dns_tester_args_def)

lemma parse_args_demo:
  "parse_args demo_env (demo_argv ''192.0.2.77/24'' ''256'' ''64'' ''4'') = Accept demo_config"
  by (simp add: parse_args_def demo_env_def demo_argv_def subnet_ip_def demo_config_def)

lemma Construct_in_main_thread:
  "Construct a \<in> set (fst (main_thread e c)) \<Longrightarrow> \<exists>j<unat (num_thread c). a = dns_tester_args e c j"
proof -
  assume a: "Construct a \<in> set (fst (main_thread e c))"
  from main_thread_decomp [of e c] obtain k rest where
    d: "fst (main_thread e c) = constructions e c k @ rest" "k \<le> unat (num_thread c)"
       "\<forall>a. Construct a \<notin> set rest"
    by blast
  from a d(1,3) have "Construct a \<in> set (constructions e c k)" by simp
  then obtain j where "j < k" "a = dns_tester_args e c j" by (auto simp: set_constructions)
  then show ?thesis using d(2) by (intro exI [of _ j]) simp
qed

lemma filter_start_constructions: "filter is_start (constructions e c k) = []"
  by (induction k) (simp_all add: constructions_def)

lemma filter_join_constructions: "filter is_join (constructions e c k) = []"
  by (induction k) (simp_all add: constructions_def)

lemma not_joinable_after_joins:
  "\<not> joinable_left (constructions e c n @ spawns e c n @ joins n)"
  by (simp add: joinable_left_def filter_start_spawns filter_join_spawns
      filter_start_joins filter_join_joins filter_start_constructions filter_join_constructions)

lemma start_in_spawns: "i < k \<Longrightarrow> ThreadStart i \<in> set (spawns e c k)"
  by (auto simp: set_spawns spawn_events_def)

lemma affinity_in_spawns: "i < k \<Longrightarrow> SetAffinity i (num_thread c + of_nat i) \<in> set (spawns e c k)"
  by (auto simp: set_spawns spawn_events_def)

lemma message_in_spawns:
  "i < k \<Longrightarrow> Stderr (affinity_message (num_thread c) i (setaffinity_rc e i (num_thread c + of_nat i)))
     \<in> set (spawns e c k)"
  by (auto simp: set_spawns spawn_events_def)

lemma join_in_joins: "i < k \<Longrightarrow> Join i \<in> set (joins k)"
  by (auto simp: set_joins)

lemma no_report_event_before:
  "x \<in> set (constructions e c k @ spawns e c k' @ joins k'') \<Longrightarrow> \<not> report_event x"
  by (auto simp: set_constructions set_spawns spawn_events_def set_joins)

lemma main_thread_no_errors:
  assumes "\<And>j. j < unat (num_thread c) \<Longrightarrow> ctor_throws e (dns_tester_args e c j) = None"
    and "\<And>j. j < unat (num_thread c) \<Longrightarrow> thread_throws e j = None"
    and "\<And>j. j < unat (num_thread c) \<Longrightarrow> \<not> start_throws e j \<and> join_throws e j = None"
    and "aggregator_throws e = None" and "display_throws e = None"
    and "write_throws e ''dns64perf.csv'' = None"
  shows "main_thread e c =
    (constructions e c (unat (num_thread c)) @ spawns e c (unat (num_thread c))
       @ joins (unat (num_thread c)) @ report_events (unat (num_thread c)) 3, Return 0)"
proof (cases rule: main_thread_cases [of c e])
  case (ctor_failed k w)
  then show ?thesis using assms(1) [of k] by simp
next
  case (thread_failed k w)
  then show ?thesis using assms(2) [of k] by simp
next
  case (start_failed k)
  then show ?thesis using assms(3) [of k] by simp
next
  case (join_failed k w)
  then show ?thesis using assms(3) [of k] by simp
next
  case (report_failed m w)
  then show ?thesis using assms(4,5,6) by auto
next
  case reported
  then show ?thesis by simp
qed

lemma main_thread_demo:
  "main_thread demo_env c =
    (constructions demo_env c (unat (num_thread c)) @ spawns demo_env c (unat (num_thread c))
       @ joins (unat (num_thread c)) @ report_events (unat (num_thread c)) 3, Return 0)"
  by (rule main_thread_no_errors) (simp_all add: demo_env_def)

subsection \<open>Traces without report\<close>

lemma spawns_0: "spawns e c 0 = []"
  by (simp add: spawns_def)

lemma joins_0: "joins 0 = []"
  by (simp add: joins_def)

lemma no_report_in_prefix:
  "Display \<notin> set (constructions e c k @ spawns e c k' @ joins k'')"
  "WriteCsv p \<notin> set (constructions e c k @ spawns e c k' @ joins k'')"
  by (auto simp: set_constructions set_spawns spawn_events_def set_joins)

lemma parse_args_ctor: "parse_args (e\<lparr>ctor_throws := f\<rparr>) argv = parse_args e argv"
  by (simp add: parse_args_def split: option.splits)

lemma parse_args_start: "parse_args (e\<lparr>start_throws := f\<rparr>) argv = parse_args e argv"
  by (simp add: parse_args_def split: option.splits)

subsection \<open>Threads and cores\<close>

lemma main_thread_spawned:
  "\<exists>k\<le>unat (num_thread c).
     (\<forall>j. ThreadStart j \<in> set (fst (main_thread e c)) \<longleftrightarrow> j < k)
   \<and> (\<forall>j core. SetAffinity j core \<in> set (fst (main_thread e c))
          \<longleftrightarrow> j < k \<and> core = num_thread c + of_nat j)"
proof -
  have sp: "(\<forall>j. ThreadStart j \<in> set (constructions e c n @ spawns e c k @ joins k' @ rest) \<longleftrightarrow> j < k)
   \<and> (\<forall>j core. SetAffinity j core \<in> set (constructions e c n @ spawns e c k @ joins k' @ rest)
          \<longleftrightarrow> j < k \<and> core = num_thread c + of_nat j)"
    if "\<forall>x\<in>set rest. report_event x \<or> is_stderr x" for n k k' rest
    using that
    by (auto simp: set_constructions set_spawns spawn_events_def set_joins)
  have re: "\<forall>x\<in>set (report_events n m @ rest). report_event x \<or> is_stderr x"
    if "\<forall>x\<in>set rest. is_stderr x" for n m rest
    using that by (auto simp: set_report_events)
  show ?thesis
  proof (cases rule: main_thread_cases [of c e])
    case (ctor_failed k w)
    then show ?thesis using sp [of "[]" k 0 0]
      by (intro exI [of _ 0]) (simp add: spawns_0 joins_0)
  next
    case (thread_failed k w)
    then show ?thesis using sp [of "[Stderr (w @ ''\<newline>'')]" _ k 0]
      by (intro exI [of _ k]) (simp add: joins_0)
  next
    case (start_failed k)
    then show ?thesis using sp [of "[]" _ "unat (num_thread c)" k]
      by (intro exI [of _ "unat (num_thread c)"]) simp
  next
    case (join_failed k w)
    then show ?thesis using sp [of "[Stderr (w @ ''\<newline>'')]" _ "unat (num_thread c)" k]
      by (intro exI [of _ "unat (num_thread c)"]) simp
  next
    case (report_failed m w)
    then show ?thesis
      using sp [of "report_events (unat (num_thread c)) m @ [Stderr (w @ ''\<newline>'')]" _
                  "unat (num_thread c)" "unat (num_thread c)"]
        re [of "[Stderr (w @ ''\<newline>'')]" "unat (num_thread c)" m]
      by (intro exI [of _ "unat (num_thread c)"]) simp
  next
    case reported
    then show ?thesis
      using sp [of "report_events (unat (num_thread c)) 3" _
                  "unat (num_thread c)" "unat (num_thread c)"]
        re [of "[]" "unat (num_thread c)" 3]
      by (intro exI [of _ "unat (num_thread c)"]) simp
  qed
qed

lemma of_nat_32_inj:
  assumes "i < 2 ^ 32" "j < 2 ^ 32" "(of_nat i :: 32 word) = of_nat j"
  shows "i = j"
proof -
  have "unat (of_nat i :: 32 word) = unat (of_nat j :: 32 word)" using assms(3) by simp
  then show ?thesis using assms(1,2) by (simp add: unat_of_nat)
qed


lemma parse_args_many_threads:
  "parse_args demo_env (demo_argv ''192.0.2.0/24'' ''0'' ''1'' ''2147483649'') = Accept many_threads_config"
  by (simp add: parse_args_def demo_env_def demo_argv_def subnet_ip_def many_threads_config_def)

text \<open>A rejection by validation: one of the thirteen diagnostics on standard error,
  \<^verbatim>\<open>return -1\<close>, and nothing else.\<close>

lemma rejected_prints_and_returns:
  assumes "parse_args e argv = Reject msg"
  shows "main e argv = ([Stderr msg], Return (- 1))"
    and "msg \<in> {usage, ''Bad server adddress.\<newline>'', ''Bad port.\<newline>'', ''Bad subnet.\<newline>'',
      ''Bad netmask.\<newline>'', ''Bad number of requests, must be between 0 and 2^32.\<newline>'',
      ''The number of requests is higher than the avaliable IPs in the subnet.\<newline>'',
      ''Bad burst size, must be between 0 and 2^32.\<newline>'',
      ''Bad number of threads size, must be between 0 and 2^32.\<newline>'',
      ''Number of requests must be divisble by (number of threads * burst size)\<newline>'',
      ''Bad number of ports per thread, must be between 0 and 2^16.\<newline>'',
      ''Bad delay between bursts.\<newline>'', ''Bad timeout.\<newline>''}"
proof -
  show "main e argv = ([Stderr msg], Return (- 1))" using assms by (rule main_Reject)
  show "msg \<in> {usage, ''Bad server adddress.\<newline>'', ''Bad port.\<newline>'', ''Bad subnet.\<newline>'',
      ''Bad netmask.\<newline>'', ''Bad number of requests, must be between 0 and 2^32.\<newline>'',
      ''The number of requests is higher than the avaliable IPs in the subnet.\<newline>'',
      ''Bad burst size, must be between 0 and 2^32.\<newline>'',
      ''Bad number of threads size, must be between 0 and 2^32.\<newline>'',
      ''Number of requests must be divisble by (number of threads * burst size)\<newline>'',
      ''Bad number of ports per thread, must be between 0 and 2^16.\<newline>'',
      ''Bad delay between bursts.\<newline>'', ''Bad timeout.\<newline>''}"
    using assms unfolding parse_args_def
    by (simp split: if_splits option.splits prod.splits)
qed

text \<open>
  The product of line 110 is taken in 32 bits. With 65536 threads and bursts of 65537
  it is 65536, which divides 65536 requests: validation accepts, though the product of
  the two numbers does not divide the number of requests.
\<close>

lemma wrapped_product_accepted:
  "parse_args demo_env (demo_argv ''192.0.2.77/0'' ''65536'' ''65537'' ''65536'') =
     Accept \<lparr>server_addr = 1, port = 53, ip = 0, netmask = 0, num_req = 65536,
       num_burst = 65537, num_thread = 65536, num_port = 2, burst_delay = 1000000,
       timeout = (1, 500000)\<rparr>"
  "\<not> (65536 * 65537 :: nat) dvd 65536"
  by (simp_all add: parse_args_def demo_env_def demo_argv_def subnet_ip_def)

subsection \<open>The run cut by a worker\<close>

lemma killed_at_le: "killed_at e tr \<le> length tr"
  by (induction e tr rule: killed_at.induct) auto

lemma killed_at_all:
  "(\<And>i. ThreadStart i \<in> set tr \<Longrightarrow> \<not> start_throws e i) \<Longrightarrow> killed_at e tr = length tr"
  by (induction e tr rule: killed_at.induct) auto

lemma killed_at_append:
  "(\<And>x. x \<in> set xs \<Longrightarrow> \<not> is_start x) \<Longrightarrow> killed_at e (xs @ ys) = length xs + killed_at e ys"
proof (induction xs)
  case Nil
  then show ?case by simp
next
  case (Cons x xs)
  then have "\<not> is_start x" by simp
  then show ?case using Cons by (cases x) simp_all
qed

lemma killed_at_constructions:
  "killed_at e (constructions e' c k @ rest) = k + killed_at e rest"
proof -
  have "\<And>x. x \<in> set (constructions e' c k) \<Longrightarrow> \<not> is_start x"
    by (auto simp: set_constructions)
  then show ?thesis
    using killed_at_append [of "constructions e' c k" e rest] by (simp add: length_constructions)
qed

lemma run_test_fst:
  "fst (run_test e c) = take (killed_at e (fst (main_thread e c))) (fst (main_thread e c))"
  by (cases "main_thread e c") (simp add: run_test_def Let_def)

lemma run_test_snd:
  "snd (run_test e c) =
     (if killed_at e (fst (main_thread e c)) < length (fst (main_thread e c)) then Terminate
      else snd (main_thread e c))"
  by (cases "main_thread e c") (simp add: run_test_def Let_def)

lemma run_test_set: "x \<in> set (fst (run_test e c)) \<Longrightarrow> x \<in> set (fst (main_thread e c))"
  unfolding run_test_fst by (rule in_set_takeD)

lemma run_test_uncut:
  "killed_at e (fst (main_thread e c)) = length (fst (main_thread e c)) \<Longrightarrow>
   run_test e c = main_thread e c"
  by (cases "main_thread e c") (simp add: run_test_def Let_def)

lemma run_test_cut_or_same: "snd (run_test e c) = Terminate \<or> run_test e c = main_thread e c"
proof (cases "killed_at e (fst (main_thread e c)) < length (fst (main_thread e c))")
  case True
  then show ?thesis by (simp add: run_test_snd)
next
  case False
  then have "killed_at e (fst (main_thread e c)) = length (fst (main_thread e c))"
    using killed_at_le [of e "fst (main_thread e c)"] by simp
  then show ?thesis by (simp add: run_test_uncut)
qed

lemma run_test_outcome: "snd (run_test e c) = Return 0 \<or> snd (run_test e c) = Terminate"
  using run_test_cut_or_same [of e c] main_thread_outcome [of e c] by auto

lemma main_not_minus1_Accept:
  "parse_args e argv = Accept c \<Longrightarrow> snd (main e argv) \<noteq> Return (- 1) \<and> snd (main e argv) \<noteq> ModuloByZero"
  using run_test_outcome [of e c] by (auto simp: main_def)


subsection \<open>Loops\<close>



lemma main_thread_starts:
  "ThreadStart j \<in> set (fst (main_thread e c)) \<Longrightarrow> j < unat (num_thread c)"
  using main_thread_spawned [of c e] by auto

lemma run_test_no_failing:
  assumes "\<And>j. j < unat (num_thread c) \<Longrightarrow> \<not> start_throws e j"
  shows "run_test e c = main_thread e c"
proof (rule run_test_uncut, rule killed_at_all)
  fix i assume "ThreadStart i \<in> set (fst (main_thread e c))"
  then have "i < unat (num_thread c)" by (rule main_thread_starts)
  then show "\<not> start_throws e i" by (rule assms)
qed

text \<open>A trace starts with the constructions; nothing after them is a construction.\<close>

lemma run_test_decomp:
  "\<exists>k rest. fst (run_test e c) = constructions e c k @ rest
     \<and> k \<le> unat (num_thread c)
     \<and> (\<forall>a. Construct a \<notin> set rest)
     \<and> (\<forall>j<k. ctor_throws e (dns_tester_args e c j) = None)
     \<and> (k < unat (num_thread c) \<longrightarrow> ctor_throws e (dns_tester_args e c k) \<noteq> None)"
proof -
  from main_thread_decomp [of e c] obtain k rest where
    d: "fst (main_thread e c) = constructions e c k @ rest" "k \<le> unat (num_thread c)"
       "\<forall>a. Construct a \<notin> set rest"
       "\<forall>j<k. ctor_throws e (dns_tester_args e c j) = None"
       "k < unat (num_thread c) \<longrightarrow> ctor_throws e (dns_tester_args e c k) \<noteq> None"
    by blast
  have "fst (run_test e c) = constructions e c k @ take (killed_at e rest) rest"
    by (simp add: run_test_fst d(1) killed_at_constructions length_constructions)
  moreover have "\<forall>a. Construct a \<notin> set (take (killed_at e rest) rest)"
    using d(3) by (meson in_set_takeD)
  ultimately show ?thesis using d(2,4,5) by blast
qed

lemma Construct_in_run:
  "Construct a \<in> set (fst (run_test e c)) \<Longrightarrow> \<exists>j<unat (num_thread c). a = dns_tester_args e c j"
  using Construct_in_main_thread [of a e c] by (blast dest: run_test_set)

lemma run_test_no_errors:
  assumes "\<And>j. j < unat (num_thread c) \<Longrightarrow> ctor_throws e (dns_tester_args e c j) = None"
    and "\<And>j. j < unat (num_thread c) \<Longrightarrow> thread_throws e j = None"
    and "\<And>j. j < unat (num_thread c) \<Longrightarrow> \<not> start_throws e j \<and> join_throws e j = None"
    and "aggregator_throws e = None" and "display_throws e = None"
    and "write_throws e ''dns64perf.csv'' = None"
  shows "run_test e c =
    (constructions e c (unat (num_thread c)) @ spawns e c (unat (num_thread c))
       @ joins (unat (num_thread c)) @ report_events (unat (num_thread c)) 3, Return 0)"
proof -
  have "run_test e c = main_thread e c"
    using assms(3) by (intro run_test_no_failing) simp
  then show ?thesis using main_thread_no_errors [OF assms] by simp
qed

lemma run_test_demo:
  "run_test demo_env c =
    (constructions demo_env c (unat (num_thread c)) @ spawns demo_env c (unat (num_thread c))
       @ joins (unat (num_thread c)) @ report_events (unat (num_thread c)) 3, Return 0)"
  by (rule run_test_no_errors) (simp_all add: demo_env_def)

text \<open>A report step in the trace means that no worker has ended the process.\<close>

lemma main_thread_report_joined:
  assumes "x \<in> set (fst (main_thread e c))" "report_event x"
  shows "\<forall>j<unat (num_thread c). \<not> start_throws e j"
proof (cases rule: main_thread_cases [of c e])
  case (ctor_failed k w)
  then show ?thesis using assms by (auto simp: set_constructions)
next
  case (thread_failed k w)
  then show ?thesis using assms by (auto simp: set_constructions set_spawns spawn_events_def)
next
  case (start_failed k)
  then show ?thesis using assms
    by (auto simp: set_constructions set_spawns spawn_events_def set_joins)
next
  case (join_failed k w)
  then show ?thesis using assms
    by (auto simp: set_constructions set_spawns spawn_events_def set_joins)
next
  case (report_failed m w)
  then show ?thesis by simp
next
  case reported
  then show ?thesis by simp
qed

lemma run_test_report:
  assumes "x \<in> set (fst (run_test e c))" "report_event x"
  shows "run_test e c = main_thread e c"
  using main_thread_report_joined [OF run_test_set [OF assms(1)] assms(2)]
  by (intro run_test_no_failing) simp


subsection \<open>Independence of the return code of the affinity call\<close>

lemma erase_start [simp]: "is_start (erase x) = is_start x"
  by (cases x) simp_all

lemma erase_join [simp]: "is_join (erase x) = is_join x"
  by (cases x) simp_all

lemma erase_stderr [simp]: "is_stderr (erase x) = is_stderr x"
  by (cases x) simp_all

lemma quiet_erase: "quiet (map erase tr) = quiet tr"
proof (induction tr)
  case Nil
  then show ?case by (simp add: quiet_def)
next
  case (Cons x tr)
  then show ?case by (cases x) (simp_all add: quiet_def)
qed

lemma joinable_left_erase: "joinable_left (map erase tr) = joinable_left tr"
proof -
  have "length (filter is_start (map erase tr)) = length (filter is_start tr)"
    by (induction tr) simp_all
  moreover have "length (filter is_join (map erase tr)) = length (filter is_join tr)"
    by (induction tr) simp_all
  ultimately show ?thesis by (simp add: joinable_left_def)
qed

lemma killed_at_erase: "killed_at e (map erase tr) = killed_at e tr"
  by (induction e tr rule: killed_at.induct) simp_all

lemma killed_at_rc: "killed_at (e\<lparr>setaffinity_rc := f\<rparr>) tr = killed_at e tr"
  by (induction e tr rule: killed_at.induct) simp_all

lemma seq_erase:
  assumes "snd r = snd r'" "map erase (fst r) = map erase (fst r')"
    "snd k = snd k'" "map erase (fst k) = map erase (fst k')"
  shows "snd (seq r k) = snd (seq r' k')
       \<and> map erase (fst (seq r k)) = map erase (fst (seq r' k'))"
  using assms by (cases "snd r'") (simp_all add: seq_def)

lemma for_loop_erase:
  assumes "\<And>j. snd (b j) = snd (b' j)" "\<And>j. map erase (fst (b j)) = map erase (fst (b' j))"
  shows "snd (for_loop n b i) = snd (for_loop n b' i)
       \<and> map erase (fst (for_loop n b i)) = map erase (fst (for_loop n b' i))"
proof (induction "n - i" arbitrary: i)
  case 0
  then show ?case by (simp add: for_loop_done)
next
  case (Suc d)
  then have lt: "i < n" and d: "d = n - Suc i" by simp_all
  have ih: "snd (for_loop n b (Suc i)) = snd (for_loop n b' (Suc i))
       \<and> map erase (fst (for_loop n b (Suc i))) = map erase (fst (for_loop n b' (Suc i)))"
    using Suc.hyps(1) [OF d] .
  show ?case
    using seq_erase [OF assms(1) [of i] assms(2) [of i]] ih lt
    by (simp add: for_loop_step)
qed

lemma spawn_body_rc:
  "snd (spawn_body (e\<lparr>setaffinity_rc := f\<rparr>) c j) = snd (spawn_body e c j)
   \<and> map erase (fst (spawn_body (e\<lparr>setaffinity_rc := f\<rparr>) c j)) = map erase (fst (spawn_body e c j))"
  by (simp add: spawn_body_def Let_def split: option.splits)

lemma try_block_rc:
  "snd (try_block (e\<lparr>setaffinity_rc := f\<rparr>) c) = snd (try_block e c)
   \<and> map erase (fst (try_block (e\<lparr>setaffinity_rc := f\<rparr>) c)) = map erase (fst (try_block e c))"
proof -
  have j: "join_body (e\<lparr>setaffinity_rc := f\<rparr>) c = join_body e c"
    by (rule ext) (simp add: join_body_def split: option.splits)
  have r: "report (e\<lparr>setaffinity_rc := f\<rparr>) c = report e c"
    by (simp add: report_def split: option.splits)
  have s: "snd (for_loop n (spawn_body (e\<lparr>setaffinity_rc := f\<rparr>) c) 0)
       = snd (for_loop n (spawn_body e c) 0)
     \<and> map erase (fst (for_loop n (spawn_body (e\<lparr>setaffinity_rc := f\<rparr>) c) 0))
       = map erase (fst (for_loop n (spawn_body e c) 0))" for n
    by (rule for_loop_erase) (simp_all add: spawn_body_rc)
  show ?thesis
    unfolding try_block_def j r
    by (rule seq_erase) (simp_all add: s)
qed

lemma main_thread_rc:
  "snd (main_thread (e\<lparr>setaffinity_rc := f\<rparr>) c) = snd (main_thread e c)
   \<and> map erase (fst (main_thread (e\<lparr>setaffinity_rc := f\<rparr>) c)) = map erase (fst (main_thread e c))"
proof -
  have cb: "construct_body (e\<lparr>setaffinity_rc := f\<rparr>) c = construct_body e c"
    by (rule ext) (simp add: construct_body_def dns_tester_args_def reference_time_def
        split: option.splits)
  obtain t0 f0 where c0: "for_loop (unat (num_thread c)) (construct_body e c) 0 = (t0, f0)"
    by (cases "for_loop (unat (num_thread c)) (construct_body e c) 0")
  obtain t1 f1 where t1: "try_block e c = (t1, f1)" by (cases "try_block e c")
  obtain t2 f2 where t2: "try_block (e\<lparr>setaffinity_rc := f\<rparr>) c = (t2, f2)"
    by (cases "try_block (e\<lparr>setaffinity_rc := f\<rparr>) c")
  have eq: "f2 = f1" "map erase t2 = map erase t1"
    using try_block_rc [where e = e and f = f and c = c] t1 t2 by simp_all
  have jl: "joinable_left t2 = joinable_left t1"
    using joinable_left_erase [of t1] joinable_left_erase [of t2] eq(2) by simp
  show ?thesis
    unfolding main_thread_def cb c0 t1 t2
    using eq jl by (cases f0; cases f1) simp_all
qed

lemma run_test_rc:
  "snd (run_test (e\<lparr>setaffinity_rc := f\<rparr>) c) = snd (run_test e c)
   \<and> quiet (fst (run_test (e\<lparr>setaffinity_rc := f\<rparr>) c)) = quiet (fst (run_test e c))"
proof -
  let ?e' = "e\<lparr>setaffinity_rc := f\<rparr>"
  let ?t = "fst (main_thread e c)" and ?t' = "fst (main_thread ?e' c)"
  note m = main_thread_rc [where e = e and f = f and c = c]
  have er: "map erase ?t' = map erase ?t" using m by simp
  have len: "length ?t' = length ?t" using arg_cong [OF er, of length] by simp
  have k: "killed_at ?e' ?t' = killed_at e ?t"
    using killed_at_erase [of e ?t'] killed_at_erase [of e ?t] er by (simp add: killed_at_rc)
  have "map erase (fst (run_test ?e' c)) = map erase (fst (run_test e c))"
    by (simp add: run_test_fst k er flip: take_map)
  then have "quiet (fst (run_test ?e' c)) = quiet (fst (run_test e c))"
    using quiet_erase [of "fst (run_test ?e' c)"] quiet_erase [of "fst (run_test e c)"] by simp
  moreover have "snd (run_test ?e' c) = snd (run_test e c)"
    using m by (simp add: run_test_snd k len)
  ultimately show ?thesis by simp
qed

lemma parse_args_rc: "parse_args (e\<lparr>setaffinity_rc := f\<rparr>) argv = parse_args e argv"
  by (simp add: parse_args_def split: option.splits)

lemma main_rc:
  "snd (main (e\<lparr>setaffinity_rc := f\<rparr>) argv) = snd (main e argv)
   \<and> quiet (fst (main (e\<lparr>setaffinity_rc := f\<rparr>) argv)) = quiet (fst (main e argv))"
  unfolding main_def parse_args_rc
  by (cases "parse_args e argv") (simp_all add: run_test_rc)

subsection \<open>Report and errors on the main thread\<close>

lemma main_thread_report:
  assumes x: "x \<in> set (fst (main_thread e c))" "report_event x"
  shows "\<exists>pre post. fst (main_thread e c) = pre @ Aggregate [0..<unat (num_thread c)] # post
      \<and> (\<forall>i<unat (num_thread c). ThreadStart i \<in> set pre \<and> Join i \<in> set pre)
      \<and> \<not> joinable_left pre
      \<and> (\<forall>y\<in>set pre. \<not> report_event y)
      \<and> (post = [Display, WriteCsv ''dns64perf.csv'']
          \<or> (\<exists>w. post = [Display, Stderr (w @ ''\<newline>'')])
          \<or> (\<exists>w. post = [Stderr (w @ ''\<newline>'')]))
      \<and> (display_throws e = None \<and> write_throws e ''dns64perf.csv'' = None \<longrightarrow>
            post = [Display, WriteCsv ''dns64perf.csv''] \<and> snd (main_thread e c) = Return 0)
      \<and> (\<forall>w. display_throws e = Some w \<longrightarrow> post = [Stderr (w @ ''\<newline>'')])
      \<and> (\<forall>w. display_throws e = None \<and> write_throws e ''dns64perf.csv'' = Some w \<longrightarrow>
            post = [Display, Stderr (w @ ''\<newline>'')])"
proof -
  let ?n = "unat (num_thread c)"
  let ?pre = "constructions e c ?n @ spawns e c ?n @ joins ?n"
  have pre: "(\<forall>i<?n. ThreadStart i \<in> set ?pre \<and> Join i \<in> set ?pre)
      \<and> \<not> joinable_left ?pre \<and> (\<forall>y\<in>set ?pre. \<not> report_event y)"
    using not_joinable_after_joins [of e c ?n] no_report_event_before [of _ e c ?n ?n ?n]
    by (auto simp: start_in_spawns join_in_joins)
  have goal: ?thesis if "fst (main_thread e c) = ?pre @ Aggregate [0..<?n] # post"
    "post = [Display, WriteCsv ''dns64perf.csv'']
          \<or> (\<exists>w. post = [Display, Stderr (w @ ''\<newline>'')])
          \<or> (\<exists>w. post = [Stderr (w @ ''\<newline>'')])"
    "display_throws e = None \<and> write_throws e ''dns64perf.csv'' = None \<longrightarrow>
            post = [Display, WriteCsv ''dns64perf.csv''] \<and> snd (main_thread e c) = Return 0"
    "\<forall>w. display_throws e = Some w \<longrightarrow> post = [Stderr (w @ ''\<newline>'')]"
    "\<forall>w. display_throws e = None \<and> write_throws e ''dns64perf.csv'' = Some w \<longrightarrow>
            post = [Display, Stderr (w @ ''\<newline>'')]" for post
    using that pre by (intro exI [of _ ?pre] exI [of _ post]) simp
  show ?thesis
  proof (cases rule: main_thread_cases [of c e])
    case (ctor_failed k w)
    then show ?thesis using x by (auto simp: set_constructions)
  next
    case (thread_failed k w)
    then show ?thesis using x
      by (auto simp: set_constructions set_spawns spawn_events_def)
  next
    case (start_failed k)
    then show ?thesis using x
      by (auto simp: set_constructions set_spawns spawn_events_def set_joins)
  next
    case (join_failed k w)
    then show ?thesis using x
      by (auto simp: set_constructions set_spawns spawn_events_def set_joins)
  next
    case (report_failed m w)
    consider "m = 0" | "m = 1" | "m = 2" using report_failed(1) by linarith
    then show ?thesis
    proof cases
      case 1
      then show ?thesis using report_failed(6) x
        by (auto simp: set_constructions set_spawns spawn_events_def set_joins
            report_events_def)
    next
      case 2
      then have d: "display_throws e = Some w" using report_failed(2) by simp
      show ?thesis using 2 d report_failed(6)
        by (intro goal [of "[Stderr (w @ ''\<newline>'')]"]) (simp_all add: report_events_def)
    next
      case 3
      then have d: "display_throws e = None" "write_throws e ''dns64perf.csv'' = Some w"
        using report_failed(2) by simp_all
      show ?thesis using 3 d report_failed(6)
        by (intro goal [of "[Display, Stderr (w @ ''\<newline>'')]"])
           (simp_all add: report_events_def numeral_2_eq_2)
    qed
  next
    case reported
    then show ?thesis
      by (intro goal [of "[Display, WriteCsv ''dns64perf.csv'']"])
         (simp_all add: report_events_def numeral_3_eq_3)
  qed
qed

lemma main_thread_error:
  assumes err: "(\<exists>i<unat (num_thread c). ctor_throws e (dns_tester_args e c i) \<noteq> None
                 \<or> thread_throws e i \<noteq> None \<or> start_throws e i \<or> join_throws e i \<noteq> None)
              \<or> aggregator_throws e \<noteq> None"
  shows "Display \<notin> set (fst (main_thread e c))
    \<and> (\<forall>p. WriteCsv p \<notin> set (fst (main_thread e c)))
    \<and> (snd (main_thread e c) = Terminate
        \<or> (\<exists>pre w. fst (main_thread e c) = pre @ [Stderr (w @ ''\<newline>'')]
              \<and> ((\<exists>i<unat (num_thread c). thread_throws e i = Some w \<or> join_throws e i = Some w)
                  \<or> aggregator_throws e = Some w)))"
proof -
  let ?n = "unat (num_thread c)"
  let ?thrown = "\<lambda>w. (\<exists>i<?n. thread_throws e i = Some w \<or> join_throws e i = Some w)
                  \<or> aggregator_throws e = Some w"
  have terminated: ?thesis
    if "main_thread e c = (constructions e c k @ spawns e c k' @ joins k'', Terminate)" for k k' k''
  proof -
    have "fst (main_thread e c) = constructions e c k @ spawns e c k' @ joins k''"
      "snd (main_thread e c) = Terminate"
      using that by simp_all
    then show ?thesis by (simp only: no_report_in_prefix) simp
  qed
  have caught: ?thesis
    if r: "fst (main_thread e c) = (constructions e c k @ spawns e c k' @ joins k'') @ [Stderr (w @ ''\<newline>'')]"
      and w: "?thrown w" for k k' k'' w
  proof -
    have tr: "fst (main_thread e c) = (constructions e c k @ spawns e c k' @ joins k'') @ [Stderr (w @ ''\<newline>'')]"
      using r by simp
    have a: "Display \<notin> set (fst (main_thread e c))"
      unfolding tr using no_report_in_prefix(1) [of e c k k' k''] by simp
    have b: "\<forall>p. WriteCsv p \<notin> set (fst (main_thread e c))"
      unfolding tr using no_report_in_prefix(2) [of _ e c k k' k''] by simp
    have "\<exists>pre. fst (main_thread e c) = pre @ [Stderr (w @ ''\<newline>'')]"
      using tr by (rule exI)
    then have "\<exists>pre w'. fst (main_thread e c) = pre @ [Stderr (w' @ ''\<newline>'')] \<and> ?thrown w'"
      using w by metis
    then show ?thesis using a b by (intro conjI disjI2)
  qed
  show ?thesis
  proof (cases rule: main_thread_cases [of c e])
    case (ctor_failed k w)
    then show ?thesis using terminated [of k 0 0] by (simp add: spawns_0 joins_0)
  next
    case (thread_failed k w)
    have "?thrown w" using thread_failed(1,2) by (intro disjI1 exI [of _ k]) simp
    then show ?thesis using thread_failed(5) caught [of ?n k 0 w] by (simp add: joins_0)
  next
    case (start_failed k)
    then show ?thesis using terminated [of ?n ?n k] by simp
  next
    case (join_failed k w)
    have "?thrown w" using join_failed(1,3) by (intro disjI1 exI [of _ k]) simp
    then show ?thesis using join_failed(7) caught [of ?n ?n k w] by simp
  next
    case (report_failed m w)
    have "aggregator_throws e \<noteq> None"
    proof (rule ccontr)
      assume "\<not> aggregator_throws e \<noteq> None"
      with err obtain i where i: "i < unat (num_thread c)"
        "ctor_throws e (dns_tester_args e c i) \<noteq> None
           \<or> thread_throws e i \<noteq> None \<or> start_throws e i \<or> join_throws e i \<noteq> None"
        by blast
      show False
        using i(2) report_failed(3) [OF i(1)] report_failed(4) [OF i(1)] report_failed(5) [OF i(1)]
        by simp
    qed
    with report_failed(2) have m0: "m = 0" and ag: "aggregator_throws e = Some w" by auto
    have "?thrown w" using ag by (intro disjI2)
    then show ?thesis using report_failed(6) caught [of ?n ?n ?n w]
      by (simp add: m0 report_events_def)
  next
    case reported
    have False
    proof -
      from err reported(4) obtain i where i: "i < unat (num_thread c)"
        "ctor_throws e (dns_tester_args e c i) \<noteq> None
           \<or> thread_throws e i \<noteq> None \<or> start_throws e i \<or> join_throws e i \<noteq> None"
        by blast
      show False
        using i(2) reported(1) [OF i(1)] reported(2) [OF i(1)] reported(3) [OF i(1)] by simp
    qed
    then show ?thesis ..
  qed
qed








text \<open>
  When \<^verbatim>\<open>start()\<close> throws in thread 1 of 4 and ends the process at once, the trace stops
  after the creation of thread 1: two threads were started, one affinity call was made.
\<close>

lemma main_thread_start_fails:
  "main_thread start_fails_env demo_config
     = (constructions start_fails_env demo_config 4 @ spawns start_fails_env demo_config 4 @ joins 1,
        Terminate)"
proof -
  have n: "unat (num_thread demo_config) = 4" by (simp add: demo_config_def)
  have none: "\<And>a. ctor_throws start_fails_env a = None" "\<And>i. thread_throws start_fails_env i = None"
    "\<And>i. join_throws start_fails_env i = None" "aggregator_throws start_fails_env = None"
    "\<And>i. start_throws start_fails_env i \<longleftrightarrow> i = 1"
    by (simp_all add: start_fails_env_def demo_env_def)
  show ?thesis
  proof (cases rule: main_thread_cases [of demo_config start_fails_env])
    case (start_failed k)
    have "k = 1" using start_failed(2) by (simp add: none)
    then show ?thesis using start_failed(6) by (simp add: n)
  next
    case (join_failed k w)
    then show ?thesis by (simp add: none)
  next
    case (report_failed m w)
    then show ?thesis using report_failed(5) [of 1] by (simp add: none n)
  next
    case reported
    then show ?thesis using reported(3) [of 1] by (simp add: none n)
  qed (simp_all add: none)
qed

lemma start_fails_cut:
  "main start_fails_env (demo_argv ''192.0.2.77/24'' ''256'' ''64'' ''4'')
     = (constructions start_fails_env demo_config 4
          @ [ThreadStart 0, SetName 0 ''Receiver 0'', SetAffinity 0 4,
             Stderr ''Receiver thread 0 was pinned to CPU core 4.\<newline>'', ThreadStart 1],
        Terminate)"
proof -
  have a2: "parse_args start_fails_env (demo_argv ''192.0.2.77/24'' ''256'' ''64'' ''4'') = Accept demo_config"
    by (simp add: start_fails_env_def parse_args_start parse_args_demo)
  have st: "\<And>i. start_throws start_fails_env i \<longleftrightarrow> i = 1" "\<And>i. dies_after start_fails_env i = 0"
    by (simp_all add: start_fails_env_def demo_env_def)
  define X where "X = constructions start_fails_env demo_config 4
        @ spawns start_fails_env demo_config 4 @ joins 1"
  have u: "[0..<4] = [0, 1, 2, 3 :: nat]" "[0..<1] = [0 :: nat]" by code_simp+
  have m: "main_thread start_fails_env demo_config = (X, Terminate)"
    by (simp add: main_thread_start_fails X_def)
  have k: "killed_at start_fails_env X = 9"
    by (simp add: X_def constructions_def spawns_def spawn_events_def joins_def st u)
  have l: "length X = 21"
    by (simp add: X_def constructions_def spawns_def spawn_events_def joins_def u)
  have t: "take 9 X = constructions start_fails_env demo_config 4
          @ [ThreadStart 0, SetName 0 ''Receiver 0'', SetAffinity 0 4,
             Stderr ''Receiver thread 0 was pinned to CPU core 4.\<newline>'', ThreadStart 1]"
    by (simp add: X_def constructions_def spawns_def spawn_events_def joins_def u
        affinity_message_def to_string.simps digit_char_def printf_d_def demo_config_def
        start_fails_env_def demo_env_def)
  show ?thesis
    unfolding main_Accept [OF a2] by (simp add: run_test_def m k l t)
qed

subsection \<open>More than \<open>2 ^ 31\<close> workers\<close>

lemma parse_args_long_delay: "parse_args demo_env long_delay_argv = Accept long_delay_config"
  by (simp add: parse_args_def demo_env_def long_delay_argv_def subnet_ip_def long_delay_config_def)

lemma parse_args_finite_memory:
  "parse_args finite_memory_env argv = parse_args demo_env argv"
  by (simp add: finite_memory_env_def parse_args_ctor)

text \<open>
  Without a bound on the workers that can be constructed the 32-bit sum wraps: in the
  environment in which nothing ever throws, with 2147483649 threads (and no request,
  which passes validation), the affinity call of thread 2147483647 gets the index 0.
\<close>

lemma affinity_core_wraps_without_bound:
  "SetAffinity 2147483647 0
     \<in> set (fst (main demo_env (demo_argv ''192.0.2.0/24'' ''0'' ''1'' ''2147483649'')))"
proof -
  have "(2147483647 :: nat) < unat (num_thread many_threads_config)"
    by (simp add: many_threads_config_def)
  then have a: "SetAffinity 2147483647 (num_thread many_threads_config + of_nat 2147483647)
      \<in> set (spawns demo_env many_threads_config (unat (num_thread many_threads_config)))"
    by (rule affinity_in_spawns)
  have z: "num_thread many_threads_config + of_nat 2147483647 = 0"
    by (simp add: many_threads_config_def)
  from a have "SetAffinity 2147483647 0
      \<in> set (spawns demo_env many_threads_config (unat (num_thread many_threads_config)))"
    unfolding z .
  then show ?thesis
    unfolding main_Accept [OF parse_args_many_threads] run_test_demo fst_conv set_append
    by (intro UnI2 UnI1)
qed

text \<open>With memory for \<open>2 ^ 31\<close> workers the same command line ends in the constructor
  loop, by \<^verbatim>\<open>std::terminate\<close>, before any thread is created.\<close>

lemma many_threads_finite_memory:
  "snd (main finite_memory_env (demo_argv ''192.0.2.0/24'' ''0'' ''1'' ''2147483649'')) = Terminate"
  "SetAffinity i core
     \<notin> set (fst (main finite_memory_env (demo_argv ''192.0.2.0/24'' ''0'' ''1'' ''2147483649'')))"
proof -
  let ?e = finite_memory_env and ?c = many_threads_config
  have acc: "parse_args ?e (demo_argv ''192.0.2.0/24'' ''0'' ''1'' ''2147483649'') = Accept ?c"
    by (simp add: parse_args_finite_memory parse_args_many_threads)
  have lt: "(2147483648 :: nat) < unat (num_thread ?c)" by (simp add: many_threads_config_def)
  have thr: "ctor_throws ?e (dns_tester_args ?e ?c 2147483648) \<noteq> None"
    by (simp add: finite_memory_env_def dns_tester_args_def)
  have m: "snd (main_thread ?e ?c) = Terminate
      \<and> (\<forall>i core. SetAffinity i core \<notin> set (fst (main_thread ?e ?c)))"
  proof (cases rule: main_thread_cases [of ?c ?e])
    case (ctor_failed k w)
    then show ?thesis by (auto simp: set_constructions)
  next
    case (thread_failed k w)
    then show ?thesis using thr thread_failed(3) [OF lt] by simp
  next
    case (start_failed k)
    then show ?thesis using thr start_failed(3) [OF lt] by simp
  next
    case (join_failed k w)
    then show ?thesis using thr join_failed(4) [OF lt] by simp
  next
    case (report_failed m w)
    then show ?thesis using thr report_failed(3) [OF lt] by simp
  next
    case reported
    then show ?thesis using thr reported(1) [OF lt] by simp
  qed
  show "snd (main ?e (demo_argv ''192.0.2.0/24'' ''0'' ''1'' ''2147483649'')) = Terminate"
    using m run_test_cut_or_same [of ?e ?c] by (auto simp: main_Accept [OF acc])
  show "SetAffinity i core
     \<notin> set (fst (main ?e (demo_argv ''192.0.2.0/24'' ''0'' ''1'' ''2147483649'')))"
    using m run_test_set [of "SetAffinity i core" ?e ?c] by (auto simp: main_Accept [OF acc])
qed
section \<open>The claims\<close>

subsection \<open>Validation\<close>

text \<open>
  Claim C4. When the first three fields parse, the prefix length \<open>p\<close> is at most 32 and
  the number of requests parses to \<open>q\<close>, \<^verbatim>\<open>main\<close> prints the diagnostic about the number
  of addresses in the subnet and returns -1 if and only if \<open>q\<close> is greater than
  \<open>2 ^ (32 - p)\<close>; a number of requests equal to that capacity passes the check.
\<close>

theorem capacity_check_iff:
  assumes "10 \<le> length argv"
    and "inet_pton e (argv ! 1) = Some sa"
    and "sscanf_hu e (argv ! 2) = Some pt"
    and "sscanf_subnet e (argv ! 3) = Some (t0, t1, t2, t3, p)"
    and "p \<le> 32"
    and "sscanf_u e (argv ! 4) = Some q"
  shows "main e argv = ([Stderr ''The number of requests is higher than the avaliable IPs in the subnet.\<newline>''], Return (- 1))
         \<longleftrightarrow> 2 ^ (32 - unat p) < unat q"
proof (cases "2 ^ (32 - unat p) < unat q")
  case True
  then have "parse_args e argv = Reject ''The number of requests is higher than the avaliable IPs in the subnet.\<newline>''"
    using assms by (simp add: parse_args_def capacity_test not_less)
  then show ?thesis using True by (simp add: main_Reject)
next
  case False
  have "parse_args e argv \<noteq> Reject ''The number of requests is higher than the avaliable IPs in the subnet.\<newline>''"
    using assms False by (simp add: parse_args_def capacity_test not_less split: option.splits)
  then have "main e argv \<noteq> ([Stderr ''The number of requests is higher than the avaliable IPs in the subnet.\<newline>''], Return (- 1))"
    using main_not_minus1_Accept [of e argv]
    by (cases "parse_args e argv") (auto simp: main_def)
  then show ?thesis using False by simp
qed

text \<open>On the subnet 192.0.2.0/24, 256 requests pass the check and 257 are rejected.\<close>

theorem capacity_check_iff_witness:
  "main demo_env (demo_argv ''192.0.2.0/24'' ''256'' ''1'' ''1'')
     \<noteq> ([Stderr ''The number of requests is higher than the avaliable IPs in the subnet.\<newline>''], Return (- 1))
   \<and> main demo_env (demo_argv ''192.0.2.0/24'' ''257'' ''1'' ''1'')
     = ([Stderr ''The number of requests is higher than the avaliable IPs in the subnet.\<newline>''], Return (- 1))"
  using capacity_check_iff [of "demo_argv ''192.0.2.0/24'' ''256'' ''1'' ''1''" demo_env 1 53 192 0 2 0 24 256]
    capacity_check_iff [of "demo_argv ''192.0.2.0/24'' ''257'' ''1'' ''1''" demo_env 1 53 192 0 2 0 24 257]
  by (simp add: demo_env_def demo_argv_def)

text \<open>
  Claim C9. The check of line 110 takes \<^verbatim>\<open>num_req\<close> modulo the 32-bit product
  \<^verbatim>\<open>num_thread * num_burst\<close> with no test of the product before it. When the run
  reaches that line with burst size \<open>b\<close> and thread count \<open>n\<close>, it ends in the modulo by
  zero exactly when the product is 0, and it does whenever \<open>n\<close> or \<open>b\<close> is 0: no
  rejection branch is reached.
\<close>

theorem modulo_by_zero_iff:
  assumes "10 \<le> length argv"
    and "inet_pton e (argv ! 1) = Some sa"
    and "sscanf_hu e (argv ! 2) = Some pt"
    and "sscanf_subnet e (argv ! 3) = Some (t0, t1, t2, t3, p)"
    and "p \<le> 32"
    and "sscanf_u e (argv ! 4) = Some q"
    and "unat q \<le> 2 ^ (32 - unat p)"
    and "sscanf_u e (argv ! 5) = Some b"
    and "sscanf_u e (argv ! 6) = Some n"
  shows "(main e argv = ([], ModuloByZero) \<longleftrightarrow> n * b = 0)
       \<and> (n = 0 \<or> b = 0 \<longrightarrow> main e argv = ([], ModuloByZero))"
proof -
  have a: "n * b = 0 \<Longrightarrow> parse_args e argv = ModZero"
    using assms by (simp add: parse_args_def capacity_test not_less)
  have b: "n * b \<noteq> 0 \<Longrightarrow> parse_args e argv \<noteq> ModZero"
    using assms by (simp add: parse_args_def capacity_test not_less split: option.splits)
  have c: "n * b \<noteq> 0 \<Longrightarrow> main e argv \<noteq> ([], ModuloByZero)"
    using b main_not_minus1_Accept [of e argv]
    by (cases "parse_args e argv") (auto simp: main_def)
  show ?thesis using a c by (auto simp: main_ModZero)
qed

text \<open>A burst size of 0, a thread count of 0, and a product that is not 0.\<close>

theorem modulo_by_zero_iff_witness:
  "main demo_env (demo_argv ''192.0.2.0/24'' ''10'' ''0'' ''1'') = ([], ModuloByZero)
   \<and> main demo_env (demo_argv ''192.0.2.0/24'' ''10'' ''2'' ''0'') = ([], ModuloByZero)
   \<and> main demo_env (demo_argv ''192.0.2.0/24'' ''10'' ''2'' ''1'') \<noteq> ([], ModuloByZero)"
  using modulo_by_zero_iff [of "demo_argv ''192.0.2.0/24'' ''10'' ''0'' ''1''" demo_env 1 53 192 0 2 0 24 10 0 1]
    modulo_by_zero_iff [of "demo_argv ''192.0.2.0/24'' ''10'' ''2'' ''0''" demo_env 1 53 192 0 2 0 24 10 2 0]
    modulo_by_zero_iff [of "demo_argv ''192.0.2.0/24'' ''10'' ''2'' ''1''" demo_env 1 53 192 0 2 0 24 10 2 1]
  by (simp add: demo_env_def demo_argv_def)

text \<open>
  Claim C10. For a subnet that parses to the octets \<open>a\<close>, \<open>b\<close>, \<open>c\<close>, \<open>d\<close> and the
  prefix length \<open>p\<close>, in a configuration that validation accepts: \<open>p\<close> is at most 32, the
  base address is the 32-bit value \<open>a<<24 | b<<16 | c<<8 | d\<close> with the low \<open>32 - p\<close> bits
  cleared, so those bits are 0 whatever the command line gave, the base is 0 when \<open>p\<close> is
  0, and every \<^verbatim>\<open>DnsTester\<close> is constructed with that base address.
\<close>

theorem subnet_base_masked:
  assumes "parse_args e argv = Accept cfg"
    and "sscanf_subnet e (argv ! 3) = Some (a, b, c, d, p)"
  shows "p \<le> 32
    \<and> ip cfg = (push_bit 24 (ucast a) OR push_bit 16 (ucast b) OR push_bit 8 (ucast c) OR ucast d)
                 AND NOT (mask (32 - unat p))
    \<and> (\<forall>k<32 - unat p. \<not> bit (ip cfg) k)
    \<and> (p = 0 \<longrightarrow> ip cfg = 0)
    \<and> (\<forall>args. Construct args \<in> set (fst (main e argv)) \<longrightarrow> ta_ip args = ip cfg)"
proof -
  from parse_args_AcceptD(4,5) [OF assms(1)] assms(2)
  have p: "p \<le> 32" and i: "ip cfg = subnet_ip a b c d p" by auto
  have z: "\<forall>k<32 - unat p. \<not> bit (ip cfg) k" by (simp add: i subnet_ip_bit)
  have "p = 0 \<longrightarrow> ip cfg = 0"
    by (auto simp: i subnet_ip_bit intro!: bit_word_eqI)
  moreover have "\<forall>args. Construct args \<in> set (fst (main e argv)) \<longrightarrow> ta_ip args = ip cfg"
  proof (intro allI impI)
    fix args assume "Construct args \<in> set (fst (main e argv))"
    then have "Construct args \<in> set (fst (run_test e cfg))" using assms(1) by (simp add: main_Accept)
    then obtain j where "args = dns_tester_args e cfg j" using Construct_in_run by blast
    then show "ta_ip args = ip cfg" by (simp add: dns_tester_args_def)
  qed
  ultimately show ?thesis using p i z by (simp add: subnet_ip_eq)
qed

text \<open>The host part 77 of 192.0.2.77/24 is cleared: the base is 192.0.2.0.\<close>

theorem subnet_base_masked_witness:
  "ip demo_config = 0xC000024D AND NOT (mask 8)
   \<and> \<not> bit (ip demo_config) 0 \<and> \<not> bit (ip demo_config) 6
   \<and> ip demo_config = 0xC0000200"
proof -
  have h: "sscanf_subnet demo_env (demo_argv ''192.0.2.77/24'' ''256'' ''64'' ''4'' ! 3)
      = Some (192, 0, 2, 77, 24)"
    by (simp add: demo_env_def demo_argv_def)
  note r = subnet_base_masked [OF parse_args_demo h]
  have a: "ip demo_config = 0xC000024D AND NOT (mask 8)"
    using r [THEN conjunct2, THEN conjunct1] by simp
  have b: "\<not> bit (ip demo_config) 0" "\<not> bit (ip demo_config) 6"
    using r [THEN conjunct2, THEN conjunct2, THEN conjunct1] by simp_all
  have c: "ip demo_config = 0xC0000200" by (simp add: demo_config_def)
  show ?thesis by (intro conjI a b c)
qed

subsection \<open>The run\<close>

text \<open>
  Claim C1, as the code has it. The start time is a signed 64-bit count of nanoseconds
  and the offset is computed in 64 bits. On the command line
  \<^verbatim>\<open>::1 53 192.0.2.0/24 3 1 3 2 18446744073709551615 1.5\<close>, which validation accepts (3
  threads, a delay of \<open>2 ^ 64 - 1\<close> ns), with the clock at 1000, the third event of the
  trace is the construction of worker 2, and its start time is -6148914689236516206,
  before the reference time 2000001000, while the reference time plus twice the quotient
  of the delay by 3 is 12297829384473035410.
\<close>

theorem worker_start_deadline_counterexample:
  "parse_args demo_env long_delay_argv = Accept long_delay_config
   \<and> fst (main demo_env long_delay_argv) ! 2
       = Construct (dns_tester_args demo_env long_delay_config 2)
   \<and> sint (ta_test_start_time (dns_tester_args demo_env long_delay_config 2))
       = - 6148914689236516206
   \<and> sint (reference_time demo_env) = 2000001000
   \<and> (2000001000 :: int) + 2 * (18446744073709551615 div 3) = 12297829384473035410"
proof -
  have n: "unat (num_thread long_delay_config) = 3" by (simp add: long_delay_config_def)
  have "fst (main demo_env long_delay_argv) ! 2 = constructions demo_env long_delay_config 3 ! 2"
    unfolding main_Accept [OF parse_args_long_delay] run_test_demo n
    by (simp add: nth_append length_constructions)
  then have a: "fst (main demo_env long_delay_argv) ! 2
      = Construct (dns_tester_args demo_env long_delay_config 2)"
    by (simp add: nth_constructions)
  have b: "sint (ta_test_start_time (dns_tester_args demo_env long_delay_config 2))
      = - 6148914689236516206"
    by (simp add: dns_tester_args_def reference_time_def demo_env_def long_delay_config_def)
  have c: "sint (reference_time demo_env) = 2000001000"
    by (simp add: reference_time_def demo_env_def)
  have d: "(2000001000 :: int) + 2 * (18446744073709551615 div 3) = 12297829384473035410"
    by simp
  show ?thesis by (intro conjI parse_args_long_delay a b c d)
qed

text \<open>
  Claim C1, amended. In an accepted configuration with \<open>n\<close> threads, when the
  constructors of the workers 0 to \<open>i\<close> do not throw, the event at position \<open>i\<close> of the
  trace is the construction of worker \<open>i\<close>, and its start time is the reference time (the
  clock read once, plus two seconds) plus \<open>i\<close> times the integer quotient of the delay
  between bursts by \<open>n\<close>, in the 64-bit arithmetic of the time type, which wraps; the
  product itself is below \<open>2 ^ 64\<close> and is given as a natural number, and when the sum
  stays below \<open>2 ^ 63\<close> the signed value of the start time is that sum of integers. With
  4 threads and a delay of 1,000,000 ns the offset is \<open>i * 250000\<close>. Every construction
  comes before every start of a thread.
\<close>

theorem worker_start_deadline:
  assumes acc: "parse_args e argv = Accept c"
    and i: "i < unat (num_thread c)"
    and ok: "\<forall>j\<le>i. ctor_throws e (dns_tester_args e c j) = None"
  shows "\<exists>a. i < length (fst (main e argv)) \<and> fst (main e argv) ! i = Construct a
           \<and> ta_thread_id a = of_nat i
           \<and> ta_test_start_time a
               = clock_now e + 2000000000 + of_nat (i * (unat (burst_delay c) div unat (num_thread c)))
           \<and> i * (unat (burst_delay c) div unat (num_thread c)) < 2 ^ 64
           \<and> (sint (clock_now e) + 2000000000
                 + int (i * (unat (burst_delay c) div unat (num_thread c))) < 2 ^ 63 \<longrightarrow>
               sint (ta_test_start_time a) = sint (clock_now e) + 2000000000
                 + int (i * (unat (burst_delay c) div unat (num_thread c))))
           \<and> (num_thread c = 4 \<and> burst_delay c = 1000000 \<longrightarrow>
                ta_test_start_time a = clock_now e + 2000000000 + of_nat (i * 250000))
           \<and> (\<forall>j<length (fst (main e argv)). is_start (fst (main e argv) ! j) \<longrightarrow>
                (\<forall>j'<length (fst (main e argv)). \<forall>b. fst (main e argv) ! j' = Construct b \<longrightarrow> j' < j))"
proof -
  let ?tr = "fst (main e argv)"
  from run_test_decomp [of e c] obtain k rest where
    d: "fst (run_test e c) = constructions e c k @ rest" "k \<le> unat (num_thread c)"
       "\<forall>a. Construct a \<notin> set rest"
       "k < unat (num_thread c) \<longrightarrow> ctor_throws e (dns_tester_args e c k) \<noteq> None"
    by blast
  have tr: "?tr = constructions e c k @ rest" using acc d(1) by (simp add: main_Accept)
  have ik: "i < k"
  proof (rule ccontr)
    assume "\<not> i < k"
    then have "k \<le> i" by simp
    then have "k < unat (num_thread c)" "ctor_throws e (dns_tester_args e c k) = None"
      using i ok by simp_all
    with d(4) show False by simp
  qed
  have nth: "?tr ! i = Construct (dns_tester_args e c i)"
    using ik by (simp add: tr nth_append length_constructions nth_constructions)
  have len: "i < length ?tr" using ik by (simp add: tr length_constructions)
  have order: "j' < j" if j: "j < length ?tr" "is_start (?tr ! j)"
    and j': "j' < length ?tr" "?tr ! j' = Construct b" for j j' b
  proof -
    have "k \<le> j"
    proof (rule ccontr)
      assume "\<not> k \<le> j"
      then have "?tr ! j = Construct (dns_tester_args e c j)"
        by (simp add: tr nth_append length_constructions nth_constructions)
      with j(2) show False by simp
    qed
    moreover have "j' < k"
    proof (rule ccontr)
      assume "\<not> j' < k"
      then have "?tr ! j' = rest ! (j' - k)" "j' - k < length rest"
        using j'(1) by (simp_all add: tr nth_append length_constructions)
      then have "Construct b \<in> set rest" using j'(2) by (metis nth_mem)
      with d(3) show False by simp
    qed
    ultimately show ?thesis by simp
  qed
  have ex: "num_thread c = 4 \<and> burst_delay c = 1000000 \<longrightarrow>
      ta_test_start_time (dns_tester_args e c i) = clock_now e + 2000000000 + of_nat (i * 250000)"
    by (simp add: start_time_eq)
  have "i * (unat (burst_delay c) div unat (num_thread c))
      \<le> unat (num_thread c) * (unat (burst_delay c) div unat (num_thread c))"
    using i by (intro mult_right_mono) simp_all
  also have "\<dots> \<le> unat (burst_delay c)" by simp
  also have "\<dots> < 2 ^ 64" using unsigned_less [of "burst_delay c"] by simp
  finally have small: "i * (unat (burst_delay c) div unat (num_thread c)) < 2 ^ 64" .
  have signed: "sint (clock_now e) + 2000000000
        + int (i * (unat (burst_delay c) div unat (num_thread c))) < 2 ^ 63 \<longrightarrow>
      sint (ta_test_start_time (dns_tester_args e c i)) = sint (clock_now e) + 2000000000
        + int (i * (unat (burst_delay c) div unat (num_thread c)))"
    unfolding start_time_eq by (intro impI sint_start_time)
  show ?thesis
    using len nth order ex small signed start_time_eq [of e c i] thread_id_eq [of e c i]
    by blast
qed

text \<open>Worker 3 of 4, with a delay of 1,000,000 ns and the clock at 1000.\<close>

theorem worker_start_deadline_witness:
  "\<exists>a. fst (main demo_env (demo_argv ''192.0.2.77/24'' ''256'' ''64'' ''4'')) ! 3 = Construct a
     \<and> ta_thread_id a = 3 \<and> ta_test_start_time a = 1000 + 2000000000 + 3 * 250000"
proof -
  have h2: "3 < unat (num_thread demo_config)" by (simp add: demo_config_def)
  have h3: "\<forall>j\<le>3. ctor_throws demo_env (dns_tester_args demo_env demo_config j) = None"
    by (simp add: demo_env_def)
  have c: "clock_now demo_env = 1000" "num_thread demo_config = 4"
    "burst_delay demo_config = 1000000"
    by (simp_all add: demo_env_def demo_config_def)
  show ?thesis using worker_start_deadline [OF parse_args_demo h2 h3] by (auto simp: c)
qed

text \<open>
  Claim C6. When a step of the report (the construction of the aggregator, the summary,
  the CSV file) occurs in the trace of an accepted configuration, the trace is a prefix
  without any step of the report, in which every thread has been started and joined and
  no started thread is left unjoined, then the aggregator over all the testers, then what
  lines 167-168 do: when neither \<^verbatim>\<open>display\<close> nor \<^verbatim>\<open>write\<close> throws, the summary and then the
  file \<^verbatim>\<open>dns64perf.csv\<close>, which end the trace, and \<^verbatim>\<open>main\<close> returns 0; when \<^verbatim>\<open>display\<close>
  throws, the message of its exception; when \<^verbatim>\<open>write\<close> throws, the summary and the message
  of the exception.
\<close>

theorem report_after_all_joins:
  assumes acc: "parse_args e argv = Accept c"
    and x: "x \<in> set (fst (main e argv))" "report_event x"
  shows "\<exists>pre post. fst (main e argv) = pre @ Aggregate [0..<unat (num_thread c)] # post
      \<and> (\<forall>i<unat (num_thread c). ThreadStart i \<in> set pre \<and> Join i \<in> set pre)
      \<and> \<not> joinable_left pre
      \<and> (\<forall>y\<in>set pre. \<not> report_event y)
      \<and> (post = [Display, WriteCsv ''dns64perf.csv'']
          \<or> (\<exists>w. post = [Display, Stderr (w @ ''\<newline>'')])
          \<or> (\<exists>w. post = [Stderr (w @ ''\<newline>'')]))
      \<and> (display_throws e = None \<and> write_throws e ''dns64perf.csv'' = None \<longrightarrow>
            post = [Display, WriteCsv ''dns64perf.csv''] \<and> snd (main e argv) = Return 0)
      \<and> (\<forall>w. display_throws e = Some w \<longrightarrow> post = [Stderr (w @ ''\<newline>'')])
      \<and> (\<forall>w. display_throws e = None \<and> write_throws e ''dns64perf.csv'' = Some w \<longrightarrow>
            post = [Display, Stderr (w @ ''\<newline>'')])"
proof -
  have m: "main e argv = run_test e c" using acc by (rule main_Accept)
  have x': "x \<in> set (fst (run_test e c))" using x(1) by (simp add: m)
  have same: "main e argv = main_thread e c"
    unfolding m using x' x(2) by (rule run_test_report)
  have "x \<in> set (fst (main_thread e c))" using x(1) by (simp add: same)
  from main_thread_report [OF this x(2)] show ?thesis unfolding same .
qed

text \<open>The run with 4 threads in which nothing throws: the CSV file is written, after
  the summary, after the aggregator, after the joins.\<close>

theorem report_after_all_joins_witness:
  "WriteCsv ''dns64perf.csv''
     \<in> set (fst (main demo_env (demo_argv ''192.0.2.77/24'' ''256'' ''64'' ''4'')))
   \<and> report_event (WriteCsv ''dns64perf.csv'' :: 128 word event)
   \<and> (\<exists>pre. fst (main demo_env (demo_argv ''192.0.2.77/24'' ''256'' ''64'' ''4''))
          = pre @ [Aggregate [0..<4], Display, WriteCsv ''dns64perf.csv'']
      \<and> ThreadStart 0 \<in> set pre \<and> Join 0 \<in> set pre
      \<and> ThreadStart 3 \<in> set pre \<and> Join 3 \<in> set pre
      \<and> \<not> joinable_left pre)
   \<and> snd (main demo_env (demo_argv ''192.0.2.77/24'' ''256'' ''64'' ''4'')) = Return 0"
proof -
  let ?tr = "fst (main demo_env (demo_argv ''192.0.2.77/24'' ''256'' ''64'' ''4''))"
  have h1: "WriteCsv ''dns64perf.csv'' \<in> set ?tr"
    by (simp add: main_Accept [OF parse_args_demo] run_test_demo report_events_def)
  have h2: "report_event (WriteCsv ''dns64perf.csv'' :: 128 word event)" by simp
  have n: "unat (num_thread demo_config) = 4" by (simp add: demo_config_def)
  have ok: "display_throws demo_env = None \<and> write_throws demo_env ''dns64perf.csv'' = None"
    by (simp add: demo_env_def)
  from report_after_all_joins [OF parse_args_demo h1 h2] obtain pre post where
    r: "?tr = pre @ Aggregate [0..<4] # post"
       "\<forall>i<4. ThreadStart i \<in> set pre \<and> Join i \<in> set pre"
       "\<not> joinable_left pre"
       "display_throws demo_env = None \<and> write_throws demo_env ''dns64perf.csv'' = None \<longrightarrow>
          post = [Display, WriteCsv ''dns64perf.csv'']
          \<and> snd (main demo_env (demo_argv ''192.0.2.77/24'' ''256'' ''64'' ''4'')) = Return 0"
    unfolding n by blast
  from r(4) ok have post: "post = [Display, WriteCsv ''dns64perf.csv'']"
    and ret: "snd (main demo_env (demo_argv ''192.0.2.77/24'' ''256'' ''64'' ''4'')) = Return 0"
    by simp_all
  have tr: "?tr = pre @ [Aggregate [0..<4], Display, WriteCsv ''dns64perf.csv'']"
    using r(1) post by simp
  have m: "ThreadStart 0 \<in> set pre \<and> Join 0 \<in> set pre \<and> ThreadStart 3 \<in> set pre \<and> Join 3 \<in> set pre"
    using r(2) by simp
  have "\<exists>pre. ?tr = pre @ [Aggregate [0..<4], Display, WriteCsv ''dns64perf.csv'']
      \<and> ThreadStart 0 \<in> set pre \<and> Join 0 \<in> set pre
      \<and> ThreadStart 3 \<in> set pre \<and> Join 3 \<in> set pre
      \<and> \<not> joinable_left pre"
    using tr m r(3) by (intro exI [of _ pre]) simp
  then show ?thesis using h1 h2 ret by (intro conjI)
qed

text \<open>
  Claim C7. In a run of an accepted configuration in which nothing throws, whatever the
  affinity call returns for thread \<open>i\<close>: a return code other than 0 puts the error
  message on standard error, the thread is started and joined, the aggregator is
  constructed over all the testers, worker \<open>i\<close> among them, the summary and the CSV file
  are produced and \<^verbatim>\<open>main\<close> returns 0. In every run, replacing the return codes of the
  affinity call by any others changes neither how \<^verbatim>\<open>main\<close> ends nor its trace apart from
  the text on standard error.
\<close>

theorem affinity_failure_not_fatal:
  assumes acc: "parse_args e argv = Accept c"
    and i: "i < unat (num_thread c)"
    and ok: "\<forall>j<unat (num_thread c). ctor_throws e (dns_tester_args e c j) = None
        \<and> thread_throws e j = None \<and> \<not> start_throws e j \<and> join_throws e j = None"
      "aggregator_throws e = None" "display_throws e = None"
      "write_throws e ''dns64perf.csv'' = None"
    and rc: "rc = setaffinity_rc e i (num_thread c + of_nat i)"
  shows "(rc \<noteq> 0 \<longrightarrow>
           Stderr (''Error calling pthread_setaffinity_np: '' @ printf_d rc @ ''.\<newline>'')
             \<in> set (fst (main e argv)))
    \<and> ThreadStart i \<in> set (fst (main e argv))
    \<and> Join i \<in> set (fst (main e argv))
    \<and> Aggregate [0..<unat (num_thread c)] \<in> set (fst (main e argv))
    \<and> i \<in> set [0..<unat (num_thread c)]
    \<and> Display \<in> set (fst (main e argv))
    \<and> WriteCsv ''dns64perf.csv'' \<in> set (fst (main e argv))
    \<and> snd (main e argv) = Return 0
    \<and> (\<forall>f. snd (main (e\<lparr>setaffinity_rc := f\<rparr>) argv) = snd (main e argv)
           \<and> quiet (fst (main (e\<lparr>setaffinity_rc := f\<rparr>) argv)) = quiet (fst (main e argv)))"
proof -
  let ?n = "unat (num_thread c)"
  have run: "main e argv =
      (constructions e c ?n @ spawns e c ?n @ joins ?n @ report_events ?n 3, Return 0)"
    unfolding main_Accept [OF acc] using ok by (intro run_test_no_errors) simp_all
  have m: "rc \<noteq> 0 \<longrightarrow>
      Stderr (''Error calling pthread_setaffinity_np: '' @ printf_d rc @ ''.\<newline>'')
        \<in> set (fst (main e argv))"
    using message_in_spawns [OF i, of c e] rc by (auto simp: run affinity_message_def)
  show ?thesis
    using m i main_rc [where e = e and argv = argv]
    by (simp add: run start_in_spawns join_in_joins report_events_def numeral_3_eq_3)
qed

text \<open>With 4 threads and an affinity call that returns 22 for each of them, the message
  is printed, thread 2 is started and joined, the CSV file is written and \<^verbatim>\<open>main\<close>
  returns 0.\<close>

theorem affinity_failure_not_fatal_witness:
  "Stderr ''Error calling pthread_setaffinity_np: 22.\<newline>''
      \<in> set (fst (main einval_env (demo_argv ''192.0.2.77/24'' ''256'' ''64'' ''4'')))
   \<and> ThreadStart 2 \<in> set (fst (main einval_env (demo_argv ''192.0.2.77/24'' ''256'' ''64'' ''4'')))
   \<and> Join 2 \<in> set (fst (main einval_env (demo_argv ''192.0.2.77/24'' ''256'' ''64'' ''4'')))
   \<and> WriteCsv ''dns64perf.csv'' \<in> set (fst (main einval_env (demo_argv ''192.0.2.77/24'' ''256'' ''64'' ''4'')))
   \<and> snd (main einval_env (demo_argv ''192.0.2.77/24'' ''256'' ''64'' ''4'')) = Return 0"
proof -
  have h1: "parse_args einval_env (demo_argv ''192.0.2.77/24'' ''256'' ''64'' ''4'') = Accept demo_config"
    by (simp add: einval_env_def parse_args_rc parse_args_demo)
  have h2: "2 < unat (num_thread demo_config)" by (simp add: demo_config_def)
  have h3: "\<forall>j<unat (num_thread demo_config).
      ctor_throws einval_env (dns_tester_args einval_env demo_config j) = None
      \<and> thread_throws einval_env j = None \<and> \<not> start_throws einval_env j
      \<and> join_throws einval_env j = None"
    by (simp add: einval_env_def demo_env_def)
  have h4: "aggregator_throws einval_env = None" "display_throws einval_env = None"
    "write_throws einval_env ''dns64perf.csv'' = None"
    by (simp_all add: einval_env_def demo_env_def)
  have h5: "22 = setaffinity_rc einval_env 2 (num_thread demo_config + of_nat 2)"
    by (simp add: einval_env_def)
  have p: "printf_d 22 = ''22''"
    by (simp add: printf_d_def to_string.simps digit_char_def)
  note r = affinity_failure_not_fatal [OF h1 h2 h3 h4 h5]
  have s: "''Error calling pthread_setaffinity_np: '' @ printf_d 22 @ ''.\<newline>''
      = ''Error calling pthread_setaffinity_np: 22.\<newline>''"
    by (simp add: p)
  have z: "(22 :: int) \<noteq> 0" by simp
  from r z have "Stderr (''Error calling pthread_setaffinity_np: '' @ printf_d 22 @ ''.\<newline>'')
      \<in> set (fst (main einval_env (demo_argv ''192.0.2.77/24'' ''256'' ''64'' ''4'')))"
    by blast
  then have 1: "Stderr ''Error calling pthread_setaffinity_np: 22.\<newline>''
      \<in> set (fst (main einval_env (demo_argv ''192.0.2.77/24'' ''256'' ''64'' ''4'')))"
    unfolding s .
  note r2 = r [THEN conjunct2]
  note r3 = r2 [THEN conjunct2]
  note r7 = r3 [THEN conjunct2, THEN conjunct2, THEN conjunct2, THEN conjunct2]
  show ?thesis
    by (intro conjI 1 r2 [THEN conjunct1] r3 [THEN conjunct1] r7 [THEN conjunct1]
        r7 [THEN conjunct2, THEN conjunct1])
qed

text \<open>
  Claim C3. In an accepted configuration, when the constructor of a worker throws, or
  the creation of a thread, or \<^verbatim>\<open>start()\<close> in its thread, or a join, or the constructor
  of the aggregator, then the summary is not displayed and no CSV file is written, and
  the error does not pass in silence: either the process is ended by \<^verbatim>\<open>std::terminate\<close>
  (which is what happens to an exception of a worker's constructor, thrown outside the
  \<^verbatim>\<open>try\<close> block, and to one of \<^verbatim>\<open>start()\<close>, thrown in the worker's thread), or the last
  event of the trace is the \<^verbatim>\<open>what()\<close> of the exception caught at line 169, written to
  standard error.
\<close>

theorem worker_error_aborts_report:
  assumes acc: "parse_args e argv = Accept c"
    and err: "(\<exists>i<unat (num_thread c). ctor_throws e (dns_tester_args e c i) \<noteq> None
                 \<or> thread_throws e i \<noteq> None \<or> start_throws e i \<or> join_throws e i \<noteq> None)
              \<or> aggregator_throws e \<noteq> None"
  shows "Display \<notin> set (fst (main e argv))
    \<and> (\<forall>p. WriteCsv p \<notin> set (fst (main e argv)))
    \<and> (snd (main e argv) = Terminate
        \<or> (\<exists>pre w. fst (main e argv) = pre @ [Stderr (w @ ''\<newline>'')]
              \<and> ((\<exists>i<unat (num_thread c). thread_throws e i = Some w \<or> join_throws e i = Some w)
                  \<or> aggregator_throws e = Some w)))"
proof -
  have m: "main e argv = run_test e c" using acc by (rule main_Accept)
  note h = main_thread_error [OF err]
  have a: "Display \<notin> set (fst (main e argv))"
    using h run_test_set [of Display e c] by (auto simp: m)
  have b: "\<forall>p. WriteCsv p \<notin> set (fst (main e argv))"
    using h run_test_set [of "WriteCsv _" e c] by (auto simp: m)
  from run_test_cut_or_same [of e c]
  have "snd (main e argv) = Terminate
        \<or> (\<exists>pre w. fst (main e argv) = pre @ [Stderr (w @ ''\<newline>'')]
              \<and> ((\<exists>i<unat (num_thread c). thread_throws e i = Some w \<or> join_throws e i = Some w)
                  \<or> aggregator_throws e = Some w))"
  proof
    assume "snd (run_test e c) = Terminate"
    then show ?thesis by (simp add: m)
  next
    assume "run_test e c = main_thread e c"
    then have "main e argv = main_thread e c" by (simp add: m)
    then show ?thesis using h by simp
  qed
  then show ?thesis using a b by (intro conjI)
qed

text \<open>A constructor that throws for worker 2, and a \<^verbatim>\<open>start()\<close> that throws in thread 1.\<close>

theorem worker_error_aborts_report_witness:
  "Display \<notin> set (fst (main bind_fails_env (demo_argv ''192.0.2.77/24'' ''256'' ''64'' ''4'')))
   \<and> snd (main bind_fails_env (demo_argv ''192.0.2.77/24'' ''256'' ''64'' ''4'')) \<noteq> Return 0
   \<and> Display \<notin> set (fst (main start_fails_env (demo_argv ''192.0.2.77/24'' ''256'' ''64'' ''4'')))
   \<and> snd (main start_fails_env (demo_argv ''192.0.2.77/24'' ''256'' ''64'' ''4'')) \<noteq> Return 0"
proof -
  have a1: "parse_args bind_fails_env (demo_argv ''192.0.2.77/24'' ''256'' ''64'' ''4'') = Accept demo_config"
    by (simp add: bind_fails_env_def parse_args_ctor parse_args_demo)
  have a2: "parse_args start_fails_env (demo_argv ''192.0.2.77/24'' ''256'' ''64'' ''4'') = Accept demo_config"
    by (simp add: start_fails_env_def parse_args_start parse_args_demo)
  have "2 < unat (num_thread demo_config)
      \<and> ctor_throws bind_fails_env (dns_tester_args bind_fails_env demo_config 2) \<noteq> None"
    by (simp add: bind_fails_env_def demo_config_def dns_tester_args_def)
  then have e1: "(\<exists>i<unat (num_thread demo_config).
        ctor_throws bind_fails_env (dns_tester_args bind_fails_env demo_config i) \<noteq> None
        \<or> thread_throws bind_fails_env i \<noteq> None \<or> start_throws bind_fails_env i
        \<or> join_throws bind_fails_env i \<noteq> None)
      \<or> aggregator_throws bind_fails_env \<noteq> None"
    by blast
  have "1 < unat (num_thread demo_config) \<and> start_throws start_fails_env 1"
    by (simp add: start_fails_env_def demo_config_def)
  then have e2: "(\<exists>i<unat (num_thread demo_config).
        ctor_throws start_fails_env (dns_tester_args start_fails_env demo_config i) \<noteq> None
        \<or> thread_throws start_fails_env i \<noteq> None \<or> start_throws start_fails_env i
        \<or> join_throws start_fails_env i \<noteq> None)
      \<or> aggregator_throws start_fails_env \<noteq> None"
    by blast
  have n1: "\<And>i. thread_throws bind_fails_env i = None" "\<And>i. join_throws bind_fails_env i = None"
    "aggregator_throws bind_fails_env = None"
    by (simp_all add: bind_fails_env_def demo_env_def)
  have n2: "\<And>i. thread_throws start_fails_env i = None" "\<And>i. join_throws start_fails_env i = None"
    "aggregator_throws start_fails_env = None"
    by (simp_all add: start_fails_env_def demo_env_def)
  show ?thesis
    using worker_error_aborts_report [OF a1 e1] worker_error_aborts_report [OF a2 e2] by (simp add: n1 n2)
qed



subsection \<open>The modulo by zero\<close>

text \<open>
  Claim C5. The claim asks for a diagnostic and a non-zero status whenever the number of
  requests is not divisible by the product of thread count and burst size. With 256
  requests, a burst size of 0 and 4 threads the product is 0: \<^verbatim>\<open>main\<close> prints nothing and
  takes the modulo of line 110 by zero.
\<close>

theorem zero_burst_size_modulo_by_zero:
  "main demo_env (demo_argv ''192.0.2.0/24'' ''256'' ''0'' ''4'') = ([], ModuloByZero)"
  by (simp add: main_def parse_args_def demo_env_def demo_argv_def)

text \<open>
  Claim C2. The claim asks for a diagnostic and a non-zero status for every input that
  fails validation, an unparsable numeric field among them. With a thread count of 0 and
  a field for the ports per thread that does not parse, \<^verbatim>\<open>main\<close> prints nothing and takes
  the modulo of line 110 by zero before it reaches the field.
\<close>

theorem zero_threads_unparsable_ports_modulo_by_zero:
  "sscanf_hu demo_env ''x'' = None
   \<and> main demo_env [''dns64perf++'', ''::1'', ''53'', ''192.0.2.0/24'', ''10'', ''2'', ''0'',
                     ''x'', ''1000000'', ''1.5''] = ([], ModuloByZero)"
  by (simp add: main_def parse_args_def demo_env_def)

end
